theory Spec2Isabelle
  imports Complex_Main "HOL-Library.Word"
begin

section \<open>Values of the host language\<close>

text \<open>
  The service module \<^verbatim>\<open>src/services/geminiService.ts\<close> is TypeScript running in a
  browser. Its values are modelled as follows.
  \<^item> A string is its sequence of UTF-16 code units, each a 16-bit word. String literals of
    the source are ASCII and are embedded with \<open>str\<close>.
  \<^item> A \<^verbatim>\<open>number\<close> is a finite value (a real; the finite doubles and floats are among
    them), \<open>NaN\<close> or one of the two infinities. A channel count is a natural number.
  \<^item> Printing a number, as a template literal does, is the host's \<^verbatim>\<open>Number::toString\<close>. It
    is an argument \<open>toString\<close> of the functions that print one, and nothing is assumed of it.
  \<^item> An optional property (\<^verbatim>\<open>x?: T\<close>, \<^verbatim>\<open>T | null\<close>) that the source only tests for
    truthiness, or reads behind \<^verbatim>\<open>?.\<close>, is an \<open>option\<close>: \<open>None\<close> stands for both
    \<^verbatim>\<open>undefined\<close> and \<^verbatim>\<open>null\<close>, which such a test does not tell apart. In the test
    \<^verbatim>\<open>thinkingBudget !== undefined\<close> the declared type has no \<^verbatim>\<open>null\<close>. A property that is
    printed keeps the two apart (\<open>printed\<close> below).
  \<^item> A thrown exception or a rejected promise is the \<open>Inl\<close> of a sum; console output and
    calls into the host are recorded as a list of effects, oldest first.
\<close>

type_synonym code_unit = "16 word"
type_synonym jsstring = "code_unit list"
type_synonym byte = "8 word"

definition str :: "string \<Rightarrow> jsstring" where
  "str s = map (\<lambda>c. of_nat (of_char c)) s"

datatype number = Num real | NaN | PosInf | NegInf

datatype error =
    Error jsstring
  | InvalidCharacterError
  | RangeError
  | TypeError
  | IndexSizeError
  | Rejected jsstring

datatype effect =
    ConsoleError jsstring
  | ConsoleWarn jsstring
  | CallHasSelectedApiKey
  | CallOpenSelectKey

text \<open>Truthiness of a string: the empty string is the only falsy one.\<close>

definition truthy_str :: "jsstring \<Rightarrow> bool" where
  "truthy_str s = (s \<noteq> [])"

text \<open>Truthiness of an optional string property: present and not empty.\<close>

definition truthy_ostr :: "jsstring option \<Rightarrow> bool" where
  "truthy_ostr s = (case s of None \<Rightarrow> False | Some t \<Rightarrow> truthy_str t)"

text \<open>\<^verbatim>\<open>String.prototype.includes\<close>: the needle occurs as a contiguous run of code units.\<close>

fun startsWith :: "'a list \<Rightarrow> 'a list \<Rightarrow> bool" where
  "startsWith hay [] = True"
| "startsWith [] (n # ns) = False"
| "startsWith (h # hs) (n # ns) = (h = n \<and> startsWith hs ns)"

fun includes_str :: "'a list \<Rightarrow> 'a list \<Rightarrow> bool" where
  "includes_str [] needle = (needle = [])"
| "includes_str (h # hs) needle = (startsWith (h # hs) needle \<or> includes_str hs needle)"

text \<open>Truthiness of a number: zero and \<open>NaN\<close> are the falsy ones.\<close>

definition truthy_num :: "number \<Rightarrow> bool" where
  "truthy_num x = (case x of Num r \<Rightarrow> r \<noteq> 0 | NaN \<Rightarrow> False | PosInf \<Rightarrow> True | NegInf \<Rightarrow> True)"

text \<open>
  A string property that a template literal prints: \<^verbatim>\<open>undefined\<close> and \<^verbatim>\<open>null\<close> are printed
  by their names, a string as it is.
\<close>

datatype printed = Undefined | Null | StringValue jsstring

definition templateString :: "printed \<Rightarrow> jsstring" where
  "templateString s =
     (case s of
        Undefined \<Rightarrow> str ''undefined''
      | Null \<Rightarrow> str ''null''
      | StringValue t \<Rightarrow> t)"

section \<open>The audio codec\<close>

subsection \<open>Base64 of the host: \<^verbatim>\<open>btoa\<close> and \<^verbatim>\<open>atob\<close>\<close>

text \<open>
  The two functions belong to the browser, not to the repository. They are modelled after
  their standard (forgiving-base64 encode and decode): the alphabet \<^verbatim>\<open>A-Z a-z 0-9 + /\<close>,
  padding with \<^verbatim>\<open>=\<close> to a multiple of four on encoding; on decoding, ASCII whitespace is
  removed, up to two padding characters are removed from a text whose length is a multiple
  of four, and a remaining length of one modulo four or any other character is an error.
  \<^verbatim>\<open>btoa\<close> throws on a code unit above 255.
\<close>

definition b64char :: "nat \<Rightarrow> code_unit" where
  "b64char n =
     (if n < 26 then of_nat (65 + n)
      else if n < 52 then of_nat (71 + n)
      else if n < 62 then of_nat (n - 4)
      else if n = 62 then 43
      else 47)"

definition b64value :: "code_unit \<Rightarrow> nat option" where
  "b64value c =
     (let k = unat c
      in if 65 \<le> k \<and> k \<le> 90 then Some (k - 65)
         else if 97 \<le> k \<and> k \<le> 122 then Some (k - 71)
         else if 48 \<le> k \<and> k \<le> 57 then Some (k + 4)
         else if k = 43 then Some 62
         else if k = 47 then Some 63
         else None)"

definition padChar :: code_unit where
  "padChar = 61"

fun b64encode :: "nat list \<Rightarrow> jsstring" where
  "b64encode (a # b # c # rest) =
     [b64char (a div 4), b64char ((a mod 4) * 16 + b div 16),
      b64char ((b mod 16) * 4 + c div 64), b64char (c mod 64)] @ b64encode rest"
| "b64encode [a, b] =
     [b64char (a div 4), b64char ((a mod 4) * 16 + b div 16), b64char ((b mod 16) * 4), padChar]"
| "b64encode [a] = [b64char (a div 4), b64char ((a mod 4) * 16), padChar, padChar]"
| "b64encode [] = []"

definition btoa :: "jsstring \<Rightarrow> error + jsstring" where
  "btoa s =
     (if list_ex (\<lambda>c. 255 < unat c) s then Inl InvalidCharacterError
      else Inr (b64encode (map unat s)))"

definition asciiWhitespace :: "code_unit \<Rightarrow> bool" where
  "asciiWhitespace c = (c = 9 \<or> c = 10 \<or> c = 12 \<or> c = 13 \<or> c = 32)"

definition stripPadding :: "jsstring \<Rightarrow> jsstring" where
  "stripPadding s =
     (if 2 \<le> length s \<and> last s = padChar \<and> last (butlast s) = padChar then butlast (butlast s)
      else if 1 \<le> length s \<and> last s = padChar then butlast s
      else s)"

fun b64decode :: "nat list \<Rightarrow> nat list" where
  "b64decode (p # q # r # s # rest) =
     [p * 4 + q div 16, (q mod 16) * 16 + r div 4, (r mod 4) * 64 + s] @ b64decode rest"
| "b64decode [p, q, r] = [p * 4 + q div 16, (q mod 16) * 16 + r div 4]"
| "b64decode [p, q] = [p * 4 + q div 16]"
| "b64decode [p] = []"
| "b64decode [] = []"

definition atob :: "jsstring \<Rightarrow> error + jsstring" where
  "atob s =
     (let d = filter (\<lambda>c. \<not> asciiWhitespace c) s;
          d = (if length d mod 4 = 0 then stripPadding d else d)
      in if length d mod 4 = 1 then Inl InvalidCharacterError
         else (case those (map b64value d) of
                 None \<Rightarrow> Inl InvalidCharacterError
               | Some sextets \<Rightarrow> Inr (map of_nat (b64decode sextets))))"

subsection \<open>\<^verbatim>\<open>decode\<close> and \<^verbatim>\<open>encode\<close>\<close>

text \<open>
  A typed array that is created with a length and then written at every index from
  \<open>0\<close> up, as in \<^verbatim>\<open>for (let i = 0; i < len; i++) arr[i] = f(i)\<close>.
\<close>

definition fillArray :: "nat \<Rightarrow> 'a \<Rightarrow> (nat \<Rightarrow> 'a) \<Rightarrow> 'a list" where
  "fillArray len zero f = foldl (\<lambda>arr i. arr[i := f i]) (replicate len zero) [0..<len]"

text \<open>
  \<^verbatim>\<open>decode\<close> (source lines 6-14). Storing a code unit into a \<^verbatim>\<open>Uint8Array\<close> keeps its low
  eight bits.
\<close>

definition decode :: "jsstring \<Rightarrow> error + byte list" where
  "decode base64 =
     (case atob base64 of
        Inl e \<Rightarrow> Inl e
      | Inr binaryString \<Rightarrow>
          (let len = length binaryString
           in Inr (fillArray len 0 (\<lambda>i. ucast (binaryString ! i)))))"

text \<open>\<^verbatim>\<open>encode\<close> (source lines 35-42).\<close>

definition fromCharCode :: "byte \<Rightarrow> code_unit" where
  "fromCharCode b = ucast b"

definition encode :: "byte list \<Rightarrow> error + jsstring" where
  "encode bytes =
     (let binary = foldl (\<lambda>binary b. binary @ [fromCharCode b]) [] bytes
      in btoa binary)"

subsection \<open>Typed-array views\<close>

text \<open>
  A typed array is a view of an \<^verbatim>\<open>ArrayBuffer\<close>: it has the buffer, an offset into it and a
  length, and its elements are the bytes of that window. A view need not span its buffer
  (\<^verbatim>\<open>subarray\<close>, or a constructor with an offset). An array made by \<^verbatim>\<open>new Uint8Array(len)\<close>,
  as in \<open>decode\<close>, does. \<open>decode\<close> and \<open>encode\<close> make and read elements only, and are
  stated on the list of elements.
\<close>

record uint8Array =
  buffer :: "byte list"
  byteOffset :: nat
  byteLength :: nat

definition elements :: "uint8Array \<Rightarrow> byte list" where
  "elements a = take (byteLength a) (drop (byteOffset a) (buffer a))"

definition spansBuffer :: "uint8Array \<Rightarrow> bool" where
  "spansBuffer a = (byteOffset a = 0 \<and> byteLength a = length (buffer a))"

definition newUint8Array :: "byte list \<Rightarrow> uint8Array" where
  "newUint8Array bytes = \<lparr>buffer = bytes, byteOffset = 0, byteLength = length bytes\<rparr>"

text \<open>
  \<^verbatim>\<open>new Uint8Array(int16.buffer)\<close> and \<^verbatim>\<open>new Int16Array(data.buffer)\<close> look at a whole buffer
  with another element size. The byte order is the host's; it is taken to be little-endian,
  as the specification has it. The second view throws when the byte length of the buffer
  is odd.
\<close>

definition int16Bytes :: "16 word list \<Rightarrow> byte list" where
  "int16Bytes ws = concat (map (\<lambda>w. [of_nat (unat w mod 256), of_nat (unat w div 256)]) ws)"

fun bytesInt16 :: "byte list \<Rightarrow> 16 word list" where
  "bytesInt16 (lo # hi # rest) = of_nat (unat lo + 256 * unat hi) # bytesInt16 rest"
| "bytesInt16 [lo] = []"
| "bytesInt16 [] = []"

definition asInt16Array :: "byte list \<Rightarrow> error + 16 word list" where
  "asInt16Array bytes = (if odd (length bytes) then Inl RangeError else Inr (bytesInt16 bytes))"

subsection \<open>\<^verbatim>\<open>createPcmBlob\<close>\<close>

text \<open>
  The SDK's \<^verbatim>\<open>Blob\<close> is \<^verbatim>\<open>{data, mimeType}\<close>. The samples are the elements of a
  \<^verbatim>\<open>Float32Array\<close>. Multiplying a float by \<open>32768 = 2\<^sup>1\<^sup>5\<close> in double precision is exact, so
  the product is the real product. Storing a number into an \<^verbatim>\<open>Int16Array\<close> truncates it
  towards zero and keeps the low sixteen bits; \<open>NaN\<close> and the infinities become \<open>0\<close>. The
  sample rate is a number, printed by the host's \<open>toString\<close>.
\<close>

record blob =
  data :: jsstring
  mimeType :: jsstring

definition truncateToInt :: "real \<Rightarrow> int" where
  "truncateToInt r = (if r < 0 then \<lceil>r\<rceil> else \<lfloor>r\<rfloor>)"

definition toInt16 :: "number \<Rightarrow> 16 word" where
  "toInt16 x = (case x of Num r \<Rightarrow> word_of_int (truncateToInt r) | _ \<Rightarrow> 0)"

definition times32768 :: "number \<Rightarrow> number" where
  "times32768 x = (case x of Num r \<Rightarrow> Num (r * 32768) | other \<Rightarrow> other)"

definition createPcmBlob ::
  "(number \<Rightarrow> jsstring) \<Rightarrow> number list \<Rightarrow> number \<Rightarrow> error + blob" where
  "createPcmBlob toString samples sampleRate =
     (let l = length samples;
          int16 = fillArray l 0 (\<lambda>i. toInt16 (times32768 (samples ! i)))
      in case encode (int16Bytes int16) of
           Inl e \<Rightarrow> Inl e
         | Inr text \<Rightarrow>
             Inr \<lparr>data = text, mimeType = str ''audio/pcm;rate='' @ toString sampleRate\<rparr>)"

subsection \<open>\<^verbatim>\<open>decodeAudioData\<close>\<close>

text \<open>
  The audio context is an argument of the function; of it the function calls
  \<^verbatim>\<open>createBuffer\<close> once. An audio buffer is its channels, each a \<^verbatim>\<open>Float32Array\<close>;
  \<^verbatim>\<open>getChannelData\<close> of a channel the buffer does not have throws.

  \<^verbatim>\<open>frameCount\<close> is a quotient of numbers: with no channel it is \<open>NaN\<close> or infinite. The frame
  loop runs while \<^verbatim>\<open>i < frameCount\<close>, which is never for \<open>NaN\<close>; an infinite count arises with
  no channel only, where the channel loop has no turn. A read past the end of the
  \<^verbatim>\<open>Int16Array\<close> gives \<^verbatim>\<open>undefined\<close>, and the quotient is then \<open>NaN\<close>; a write past the end of
  the channel does nothing. The quotient of a 16-bit integer by \<open>32768\<close> is exact, also as a
  float.
\<close>

record audioContext =
  createBuffer :: "nat \<Rightarrow> number \<Rightarrow> number \<Rightarrow> error + number list list"

definition frameCountOf :: "nat \<Rightarrow> nat \<Rightarrow> number" where
  "frameCountOf len numChannels =
     (if numChannels = 0 then (if len = 0 then NaN else PosInf)
      else Num (real len / real numChannels))"

definition frameIndices :: "number \<Rightarrow> nat list" where
  "frameIndices frameCount = (case frameCount of Num r \<Rightarrow> [0..<nat \<lceil>r\<rceil>] | _ \<Rightarrow> [])"

definition sampleAt :: "16 word list \<Rightarrow> nat \<Rightarrow> number" where
  "sampleAt dataInt16 k =
     (if k < length dataInt16 then Num (real_of_int (sint (dataInt16 ! k)) / 32768.0) else NaN)"

definition writeAt :: "'a list \<Rightarrow> nat \<Rightarrow> 'a \<Rightarrow> 'a list" where
  "writeAt arr i v = (if i < length arr then arr[i := v] else arr)"

definition fillChannel :: "16 word list \<Rightarrow> nat \<Rightarrow> number \<Rightarrow> nat \<Rightarrow> number list \<Rightarrow> number list" where
  "fillChannel dataInt16 numChannels frameCount channel channelData0 =
     foldl (\<lambda>channelData i. writeAt channelData i (sampleAt dataInt16 (i * numChannels + channel)))
       channelData0 (frameIndices frameCount)"

text \<open>One turn of the channel loop, on the buffer as it stands.\<close>

definition channelTurn ::
  "16 word list \<Rightarrow> nat \<Rightarrow> number \<Rightarrow> error + number list list \<Rightarrow> nat \<Rightarrow>
     error + number list list" where
  "channelTurn dataInt16 numChannels frameCount state channel =
     (case state of
        Inl e \<Rightarrow> Inl e
      | Inr audioBuffer \<Rightarrow>
          if length audioBuffer \<le> channel then Inl IndexSizeError
          else Inr (audioBuffer[channel :=
                 fillChannel dataInt16 numChannels frameCount channel (audioBuffer ! channel)]))"

text \<open>
  \<^verbatim>\<open>decodeAudioData\<close> (source lines 16-33). Source line 22 views \<^verbatim>\<open>data.buffer\<close>: the whole
  buffer under the array, whatever the array's offset and length.
\<close>

definition decodeAudioData ::
  "uint8Array \<Rightarrow> audioContext \<Rightarrow> number \<Rightarrow> nat \<Rightarrow> error + number list list" where
  "decodeAudioData dataArray ctx sampleRate numChannels =
     (case asInt16Array (buffer dataArray) of
        Inl e \<Rightarrow> Inl e
      | Inr dataInt16 \<Rightarrow>
          (let frameCount = frameCountOf (length dataInt16) numChannels
           in case createBuffer ctx numChannels frameCount sampleRate of
                Inl e \<Rightarrow> Inl e
              | Inr audioBuffer \<Rightarrow>
                  foldl (channelTurn dataInt16 numChannels frameCount) (Inr audioBuffer)
                    [0..<numChannels]))"

section \<open>Request assembly: \<^verbatim>\<open>generateContent\<close>\<close>

text \<open>A request part is either \<^verbatim>\<open>{inlineData: Blob}\<close> or \<^verbatim>\<open>{text: string}\<close>.\<close>

datatype part = InlineData blob | Text jsstring

text \<open>
  Modelled from the spec: \<^verbatim>\<open>ImageInput\<close> is declared in \<^verbatim>\<open>../types\<close>, which is not among the
  sources. The specification speaks of caller-supplied images that become inline-data
  parts; the record has the two fields the function reads, \<^verbatim>\<open>base64Data\<close> and
  \<^verbatim>\<open>mimeType\<close>. The \<^verbatim>\<open>audio\<close> option is declared in the source with the same two fields.
\<close>

record image_input =
  base64Data :: jsstring
  mimeType :: jsstring

text \<open>
  Of a \<^verbatim>\<open>Tool\<close> the function looks at \<^verbatim>\<open>googleMaps\<close> only (an object when present,
  hence truthy); \<^verbatim>\<open>googleSearch\<close> stands for the SDK's other tool kinds. Of a \<^verbatim>\<open>GeolocationPosition\<close> it reads
  \<^verbatim>\<open>coords.latitude\<close> and \<^verbatim>\<open>coords.longitude\<close>.
\<close>

record tool =
  googleSearch :: "unit option"
  googleMaps :: "unit option"

record latLng =
  latitude :: number
  longitude :: number

record geolocationPosition =
  coords :: latLng

record config =
  systemInstruction :: "jsstring option"
  thinkingBudget :: "number option"
  tools :: "tool list option"
  images :: "image_input list option"
  audio :: "image_input option"
  geolocation :: "geolocationPosition option"

record thinkingConfig =
  thinkingBudget :: number

record retrievalConfig =
  latLng :: latLng

record toolConfig =
  retrievalConfig :: retrievalConfig

record generateConfig =
  systemInstruction :: "jsstring option"
  thinkingConfig :: "thinkingConfig option"
  tools :: "tool list option"
  toolConfig :: "toolConfig option"

record request =
  model :: jsstring
  contents :: "part list"
  config :: generateConfig

text \<open>
  \<^verbatim>\<open>getGeminiClient\<close> (source lines 74-81): the key is read from the environment; a
  missing or empty key is logged and thrown. The client is identified with its key.
\<close>

definition getGeminiClient :: "jsstring option \<Rightarrow> effect list \<times> (error + jsstring)" where
  "getGeminiClient API_KEY =
     (let missing = ([ConsoleError (str ''API_KEY is not defined.'')],
                     Inl (Error (str ''Gemini API key is not configured.'')))
      in case API_KEY of
           None \<Rightarrow> missing
         | Some k \<Rightarrow> if \<not> truthy_str k then missing else ([], Inr k))"

text \<open>Source lines 171-182: the part sequence.\<close>

definition inlinePart :: "image_input \<Rightarrow> part" where
  "inlinePart img = InlineData \<lparr>blob.data = base64Data img, mimeType = image_input.mimeType img\<rparr>"

definition generateContent_parts :: "jsstring \<Rightarrow> config option \<Rightarrow> part list" where
  "generateContent_parts prompt cfg =
     (let parts0 = [];
          parts1 = (case Option.bind cfg images of
                      None \<Rightarrow> parts0
                    | Some imgs \<Rightarrow>
                        if length imgs > 0 then parts0 @ map inlinePart imgs else parts0);
          parts2 = (case Option.bind cfg audio of
                      None \<Rightarrow> parts1
                    | Some a \<Rightarrow> parts1 @ [inlinePart a]);
          parts3 = (if truthy_str prompt then parts2 @ [Text prompt] else parts2)
      in parts3)"

text \<open>
  Source lines 184-203: the config object, and the warning logged when maps grounding is
  requested without a position.
\<close>

definition wantsMaps :: "config option \<Rightarrow> bool" where
  "wantsMaps cfg =
     (case Option.bind cfg config.tools of
        None \<Rightarrow> False
      | Some ts \<Rightarrow> list_ex (\<lambda>t. googleMaps t \<noteq> None) ts)"

definition generateContent_config :: "config option \<Rightarrow> effect list \<times> generateConfig" where
  "generateContent_config cfg =
     (let generateConfig0 =
            \<lparr>systemInstruction = Option.bind cfg config.systemInstruction,
             thinkingConfig =
               (case Option.bind cfg config.thinkingBudget of
                  Some b \<Rightarrow> Some \<lparr>thinkingBudget = b\<rparr>
                | None \<Rightarrow> None),
             tools = Option.bind cfg config.tools,
             toolConfig = None\<rparr>
      in if wantsMaps cfg then
           (case Option.bind cfg geolocation of
              Some g \<Rightarrow>
                ([], generateConfig0\<lparr>toolConfig :=
                       Some \<lparr>retrievalConfig =
                         \<lparr>latLng = \<lparr>latitude = latitude (coords g),
                                     longitude = longitude (coords g)\<rparr>\<rparr>\<rparr>\<rparr>)
            | None \<Rightarrow>
                ([ConsoleWarn (str ''Geolocation not provided for Google Maps grounding.'')],
                 generateConfig0))
         else ([], generateConfig0))"

text \<open>
  The whole call. \<open>sdk\<close> is the external client's \<^verbatim>\<open>models.generateContent\<close>: given the
  key the client was built with and the request, it yields the awaited outcome.
\<close>

definition generateContent ::
  "jsstring option \<Rightarrow> (jsstring \<Rightarrow> request \<Rightarrow> error + 'r) \<Rightarrow> jsstring \<Rightarrow> jsstring \<Rightarrow>
     config option \<Rightarrow> effect list \<times> (error + 'r)" where
  "generateContent API_KEY sdk mdl prompt cfg =
     (case getGeminiClient API_KEY of
        (out, Inl e) \<Rightarrow> (out, Inl e)
      | (out, Inr ai) \<Rightarrow>
          (let parts = generateContent_parts prompt cfg;
               (out', generateConfig) = generateContent_config cfg
           in (out @ out',
               sdk ai \<lparr>model = mdl, contents = parts, config = generateConfig\<rparr>)))"

section \<open>The key-selection handshake and error normalisation\<close>

text \<open>
  The host may expose \<^verbatim>\<open>window.aistudio\<close> with two asynchronous functions. Each is called
  at most once in a run of the functions below, so a function is modelled by the outcome
  of awaiting its one call: \<open>Inr\<close> the resolved value, \<open>Inl\<close> the rejection. \<open>None\<close> is an
  absent property, and \<open>None\<close> for the window itself is \<^verbatim>\<open>typeof window === 'undefined'\<close>.
\<close>

record aistudio =
  hasSelectedApiKey :: "(error + bool) option"
  openSelectKey :: "(error + unit) option"

record window =
  aistudio :: "aistudio option"

text \<open>\<^verbatim>\<open>checkAndSelectVeoApiKey\<close> (source lines 84-99).\<close>

definition checkAndSelectVeoApiKey :: "window option \<Rightarrow> effect list \<times> (error + bool)" where
  "checkAndSelectVeoApiKey win =
     (let unavailable =
            ([ConsoleWarn (str (''window.aistudio not available. Assuming API key is '' @
                                ''selected or not required for this environment.''))],
             Inr True)
      in case win of
           None \<Rightarrow> unavailable
         | Some w \<Rightarrow>
        (case aistudio w of
           None \<Rightarrow> unavailable
         | Some a \<Rightarrow>
        (case hasSelectedApiKey a of
           None \<Rightarrow> unavailable
         | Some (Inl rejection) \<Rightarrow> ([CallHasSelectedApiKey], Inl rejection)
         | Some (Inr hasKey) \<Rightarrow>
             if \<not> hasKey then
               (let out = [CallHasSelectedApiKey,
                           ConsoleWarn (str ''Veo API key not selected. Opening key selection dialog.'')]
                in case openSelectKey a of
                     None \<Rightarrow> (out, Inl TypeError)
                   | Some (Inl rejection) \<Rightarrow> (out @ [CallOpenSelectKey], Inl rejection)
                   | Some (Inr _) \<Rightarrow> (out @ [CallOpenSelectKey], Inr True))
             else ([CallHasSelectedApiKey], Inr True))))"

text \<open>
  The argument of \<^verbatim>\<open>handleApiError\<close> has type \<^verbatim>\<open>any\<close>; the function reads
  \<^verbatim>\<open>message\<close>, \<^verbatim>\<open>response.status\<close>, \<^verbatim>\<open>response.statusText\<close> and
  \<^verbatim>\<open>response.data.message\<close>. The messages and the status text are strings where they are
  present, and the status is a number.
\<close>

record errorData =
  message :: "jsstring option"

record errorResponse =
  status :: "number option"
  statusText :: printed
  data :: "errorData option"

record apiError =
  message :: "jsstring option"
  response :: "errorResponse option"

text \<open>Source lines 104-112: the message before the key-selection hint.\<close>

definition baseMessage :: "(number \<Rightarrow> jsstring) \<Rightarrow> apiError \<Rightarrow> jsstring" where
  "baseMessage toString err =
     (let errorMessage = str ''An unexpected error occurred.'';
          viaResponse =
            (case response err of
               None \<Rightarrow> errorMessage
             | Some r \<Rightarrow>
            (case status r of
               None \<Rightarrow> errorMessage
             | Some st \<Rightarrow>
                 if \<not> truthy_num st then errorMessage
                 else
                   (let errorMessage = str ''API Error: '' @ toString st @ str '' '' @
                                       templateString (statusText r)
                    in case Option.bind (errorResponse.data r) errorData.message of
                         None \<Rightarrow> errorMessage
                       | Some dm \<Rightarrow>
                           if truthy_str dm then errorMessage @ str '' - '' @ dm
                           else errorMessage)))
      in case apiError.message err of
           None \<Rightarrow> viaResponse
         | Some m \<Rightarrow> if truthy_str m then m else viaResponse)"

text \<open>
  \<^verbatim>\<open>handleApiError\<close> (source lines 102-124). The call of \<^verbatim>\<open>openSelectKey\<close> is not awaited:
  it is recorded as an effect, and its outcome reaches the console only, after the
  function has returned.
\<close>

definition keyHint :: jsstring where
  "keyHint = str ('' This might indicate an issue with your selected API key. '' @
                  ''Please try selecting it again.'')"

definition handleApiError ::
  "(number \<Rightarrow> jsstring) \<Rightarrow> window option \<Rightarrow> apiError \<Rightarrow> effect list \<times> jsstring" where
  "handleApiError toString win err =
     (let out = [ConsoleError (str ''Gemini API error:'')];
          errorMessage = baseMessage toString err
      in if includes_str errorMessage (str ''Requested entity was not found.'')
         then (let errorMessage = errorMessage @ keyHint
               in case Option.bind (Option.bind win aistudio) openSelectKey of
                    Some _ \<Rightarrow> (out @ [CallOpenSelectKey], errorMessage)
                  | None \<Rightarrow> (out, errorMessage))
         else (out, errorMessage))"

section \<open>Grounding citations: \<^verbatim>\<open>extractGroundingChunks\<close>\<close>

text \<open>
  The response of the SDK, as far as the function reads it. Every property of the SDK's
  types is optional. The snippet type is the one the source casts to,
  \<^verbatim>\<open>{reviewSnippet: string; uri: string}\<close>; a property that is not there reads as
  \<^verbatim>\<open>undefined\<close>, hence the options.
\<close>

record sdkWeb =
  uri :: "jsstring option"
  title :: "jsstring option"

record sdkReviewSnippet =
  reviewSnippet :: "jsstring option"
  uri :: "jsstring option"

record sdkPlaceAnswerSources =
  reviewSnippets :: "sdkReviewSnippet list option"

record sdkMaps =
  uri :: "jsstring option"
  title :: "jsstring option"
  placeAnswerSources :: "sdkPlaceAnswerSources option"

record sdkGroundingChunk =
  web :: "sdkWeb option"
  maps :: "sdkMaps option"

record groundingMetadata =
  groundingChunks :: "sdkGroundingChunk list option"

record candidate =
  groundingMetadata :: "groundingMetadata option"

record generateContentResponse =
  candidates :: "candidate list option"

text \<open>
  Modelled from the spec: the application's \<^verbatim>\<open>GroundingChunk\<close> is declared in \<^verbatim>\<open>../types\<close>,
  which is not among the sources. By the specification it is a tagged union of
  \<^verbatim>\<open>{web: {uri, title}}\<close> and \<^verbatim>\<open>{maps: {uri, title, optional review-snippet list}}\<close>. The
  \<^verbatim>\<open>web\<close> case holds the SDK's object itself (source line 133); the \<^verbatim>\<open>maps\<close> case holds the
  object built in source lines 138-149.
\<close>

record reviewSnippetData =
  reviewSnippet :: "jsstring option"
  uri :: "jsstring option"

record placeAnswerSourcesData =
  reviewSnippets :: "reviewSnippetData list"

record mapsData =
  uri :: jsstring
  title :: jsstring
  placeAnswerSources :: "placeAnswerSourcesData option"

datatype groundingChunk = Web sdkWeb | Maps mapsData

text \<open>The optional chain of source line 129; \<^verbatim>\<open>?.[0]\<close> of an empty array is \<^verbatim>\<open>undefined\<close>.\<close>

definition firstGroundingChunks :: "generateContentResponse \<Rightarrow> sdkGroundingChunk list option" where
  "firstGroundingChunks resp =
     Option.bind
       (Option.bind
          (Option.bind (candidates resp) (\<lambda>cs. case cs of [] \<Rightarrow> None | c # _ \<Rightarrow> Some c))
          groundingMetadata)
       groundingChunks"

text \<open>The two tests of source lines 132 and 134.\<close>

definition webOk :: "sdkGroundingChunk \<Rightarrow> bool" where
  "webOk chunk =
     (case web chunk of
        None \<Rightarrow> False
      | Some w \<Rightarrow> truthy_ostr (sdkWeb.uri w) \<and> truthy_ostr (sdkWeb.title w))"

definition mapsOk :: "sdkGroundingChunk \<Rightarrow> bool" where
  "mapsOk chunk =
     (case maps chunk of
        None \<Rightarrow> False
      | Some m \<Rightarrow> truthy_ostr (sdkMaps.uri m) \<and> truthy_ostr (sdkMaps.title m))"

text \<open>Source lines 138-149: the maps object that is pushed.\<close>

definition copySnippet :: "sdkReviewSnippet \<Rightarrow> reviewSnippetData" where
  "copySnippet snippet =
     \<lparr>reviewSnippetData.reviewSnippet = sdkReviewSnippet.reviewSnippet snippet,
      reviewSnippetData.uri = sdkReviewSnippet.uri snippet\<rparr>"

definition buildMapsData :: "jsstring \<Rightarrow> jsstring \<Rightarrow> sdkMaps \<Rightarrow> mapsData" where
  "buildMapsData u t m =
     (let mapsData0 = \<lparr>mapsData.uri = u, mapsData.title = t, mapsData.placeAnswerSources = None\<rparr>
      in case Option.bind (sdkMaps.placeAnswerSources m) sdkPlaceAnswerSources.reviewSnippets of
           Some snippets \<Rightarrow>
             mapsData0\<lparr>mapsData.placeAnswerSources :=
               Some \<lparr>placeAnswerSourcesData.reviewSnippets = map copySnippet snippets\<rparr>\<rparr>
         | None \<Rightarrow> mapsData0)"

text \<open>One turn of the loop of source lines 130-152, on the array built so far.\<close>

definition pushChunk :: "groundingChunk list \<Rightarrow> sdkGroundingChunk \<Rightarrow> groundingChunk list" where
  "pushChunk pushed chunk =
     (if webOk chunk then
        (case web chunk of
           Some w \<Rightarrow> pushed @ [Web w]
         | None \<Rightarrow> pushed)
      else if mapsOk chunk then
        (case maps chunk of
           Some m \<Rightarrow>
             (case (sdkMaps.uri m, sdkMaps.title m) of
                (Some u, Some t) \<Rightarrow> pushed @ [Maps (buildMapsData u t m)]
              | _ \<Rightarrow> pushed)
         | None \<Rightarrow> pushed)
      else pushed)"

definition extractGroundingChunks :: "generateContentResponse \<Rightarrow> groundingChunk list" where
  "extractGroundingChunks resp =
     (case firstGroundingChunks resp of
        Some chunks \<Rightarrow> foldl pushChunk [] chunks
      | None \<Rightarrow> [])"

section \<open>Properties of the request assembly\<close>

text \<open>
  With a key configured, the call hands the external client exactly one request: the
  assembled parts and the assembled config.
\<close>

lemma generateContent_sends:
  "k \<noteq> [] \<Longrightarrow>
   generateContent (Some k) sdk mdl prompt cfg =
     (fst (generateContent_config cfg),
      sdk k \<lparr>model = mdl, contents = generateContent_parts prompt cfg,
             config = snd (generateContent_config cfg)\<rparr>)"
  by (simp add: generateContent_def getGeminiClient_def truthy_str_def split: prod.splits)

lemma generateContent_parts_eq:
  "generateContent_parts prompt cfg =
     map inlinePart (case Option.bind cfg images of None \<Rightarrow> [] | Some imgs \<Rightarrow> imgs)
     @ (case Option.bind cfg audio of None \<Rightarrow> [] | Some a \<Rightarrow> [inlinePart a])
     @ (if prompt = [] then [] else [Text prompt])"
  by (simp add: generateContent_parts_def truthy_str_def split: option.splits)

text \<open>
  Claim C4. With a key configured, the request that \<open>generateContent\<close> sends carries the
  parts in one fixed order: the image parts in the caller's order, then the audio part if
  there is one, then the text part if the prompt is not empty. An omitted input contributes
  no part. The witness is the example of the specification: images \<open>[A, B]\<close>, audio \<open>C\<close>
  and text \<open>t\<close> give exactly \<open>[A, B, C, {text: t}]\<close>.
\<close>

theorem generateContent_part_order:
  assumes "k \<noteq> []"
  shows "generateContent (Some k) sdk mdl prompt cfg =
     (fst (generateContent_config cfg),
      sdk k \<lparr>model = mdl,
        contents =
          map inlinePart (case Option.bind cfg images of None \<Rightarrow> [] | Some imgs \<Rightarrow> imgs)
          @ (case Option.bind cfg audio of None \<Rightarrow> [] | Some a \<Rightarrow> [inlinePart a])
          @ (if prompt = [] then [] else [Text prompt]),
        config = snd (generateContent_config cfg)\<rparr>)"
  using assms by (simp add: generateContent_sends generateContent_parts_eq)

theorem generateContent_part_order_witness:
  "str ''key'' \<noteq> [] \<and>
   snd (generateContent (Some (str ''key'')) (\<lambda>k r. Inr r) (str ''gemini'') (str ''t'')
      (Some \<lparr>config.systemInstruction = None, thinkingBudget = None, tools = None,
             images = Some [\<lparr>base64Data = str ''A'', mimeType = str ''image/png''\<rparr>,
                            \<lparr>base64Data = str ''B'', mimeType = str ''image/jpeg''\<rparr>],
             audio = Some \<lparr>base64Data = str ''C'', mimeType = str ''audio/wav''\<rparr>,
             geolocation = None\<rparr>)) =
     Inr \<lparr>model = str ''gemini'',
        contents = [InlineData \<lparr>blob.data = str ''A'', mimeType = str ''image/png''\<rparr>,
                    InlineData \<lparr>blob.data = str ''B'', mimeType = str ''image/jpeg''\<rparr>,
                    InlineData \<lparr>blob.data = str ''C'', mimeType = str ''audio/wav''\<rparr>,
                    Text (str ''t'')],
        config = \<lparr>generateConfig.systemInstruction = None, thinkingConfig = None,
                   tools = None, toolConfig = None\<rparr>\<rparr>"
  using generateContent_part_order [of "str ''key''" "\<lambda>k r. Inr r" "str ''gemini''" "str ''t''"
      "Some \<lparr>config.systemInstruction = None, thinkingBudget = None, tools = None,
             images = Some [\<lparr>base64Data = str ''A'', mimeType = str ''image/png''\<rparr>,
                            \<lparr>base64Data = str ''B'', mimeType = str ''image/jpeg''\<rparr>],
             audio = Some \<lparr>base64Data = str ''C'', mimeType = str ''audio/wav''\<rparr>,
             geolocation = None\<rparr>"]
  by (simp add: str_def inlinePart_def generateContent_config_def wantsMaps_def)

text \<open>
  Claim C10. With the empty string as prompt no text part is appended: the sequence sent is
  the image parts followed by the audio part, and no element of it is a text part.
\<close>

theorem generateContent_empty_prompt:
  assumes "k \<noteq> []"
  shows "generateContent (Some k) sdk mdl [] cfg =
     (fst (generateContent_config cfg),
      sdk k \<lparr>model = mdl,
        contents =
          map inlinePart (case Option.bind cfg images of None \<Rightarrow> [] | Some imgs \<Rightarrow> imgs)
          @ (case Option.bind cfg audio of None \<Rightarrow> [] | Some a \<Rightarrow> [inlinePart a]),
        config = snd (generateContent_config cfg)\<rparr>)
     \<and> (\<forall>t. Text t \<notin> set (generateContent_parts [] cfg))"
  using assms by (auto simp add: generateContent_sends generateContent_parts_eq inlinePart_def split: option.splits)

theorem generateContent_empty_prompt_witness:
  "str ''key'' \<noteq> [] \<and>
   snd (generateContent (Some (str ''key'')) (\<lambda>k r. Inr r) (str ''gemini'') []
      (Some \<lparr>config.systemInstruction = None, thinkingBudget = None, tools = None,
             images = Some [\<lparr>base64Data = str ''A'', mimeType = str ''image/png''\<rparr>],
             audio = Some \<lparr>base64Data = str ''C'', mimeType = str ''audio/wav''\<rparr>,
             geolocation = None\<rparr>)) =
     Inr \<lparr>model = str ''gemini'',
        contents = [InlineData \<lparr>blob.data = str ''A'', mimeType = str ''image/png''\<rparr>,
                    InlineData \<lparr>blob.data = str ''C'', mimeType = str ''audio/wav''\<rparr>],
        config = \<lparr>generateConfig.systemInstruction = None, thinkingConfig = None,
                   tools = None, toolConfig = None\<rparr>\<rparr>"
  using generateContent_empty_prompt [of "str ''key''" "\<lambda>k r. Inr r" "str ''gemini''"
      "Some \<lparr>config.systemInstruction = None, thinkingBudget = None, tools = None,
             images = Some [\<lparr>base64Data = str ''A'', mimeType = str ''image/png''\<rparr>],
             audio = Some \<lparr>base64Data = str ''C'', mimeType = str ''audio/wav''\<rparr>,
             geolocation = None\<rparr>"]
  by (simp add: str_def inlinePart_def generateContent_config_def wantsMaps_def)


lemma thinkingConfig_config:
  "thinkingConfig (snd (generateContent_config cfg)) =
     map_option (\<lambda>b. \<lparr>thinkingBudget = b\<rparr>) (Option.bind cfg config.thinkingBudget)"
  by (simp add: generateContent_config_def Let_def split: option.splits)

lemma passthrough_config:
  "generateConfig.systemInstruction (snd (generateContent_config cfg)) =
     Option.bind cfg config.systemInstruction"
  "generateConfig.tools (snd (generateContent_config cfg)) = Option.bind cfg config.tools"
  by (simp_all add: generateContent_config_def Let_def split: option.splits)

lemma wantsMaps_iff:
  "wantsMaps cfg \<longleftrightarrow>
     (\<exists>ts. Option.bind cfg config.tools = Some ts \<and> (\<exists>t \<in> set ts. googleMaps t \<noteq> None))"
  by (simp add: wantsMaps_def list_ex_iff split: option.splits)

lemma toolConfig_config:
  "toolConfig (snd (generateContent_config cfg)) =
     (if wantsMaps cfg
      then map_option (\<lambda>g. \<lparr>retrievalConfig = \<lparr>latLng =
              \<lparr>latitude = latitude (coords g), longitude = longitude (coords g)\<rparr>\<rparr>\<rparr>)
             (Option.bind cfg geolocation)
      else None)"
  by (simp add: generateContent_config_def Let_def split: option.splits)

lemma log_config:
  "fst (generateContent_config cfg) =
     (if wantsMaps cfg \<and> Option.bind cfg geolocation = None
      then [ConsoleWarn (str ''Geolocation not provided for Google Maps grounding.'')]
      else [])"
  by (simp add: generateContent_config_def Let_def split: option.splits)

text \<open>
  Claim C5. The config sent carries a \<open>thinkingConfig\<close> exactly when the caller gave a
  \<open>thinkingBudget\<close>, and then it wraps that very value (a budget of zero is wrapped like
  any other, as the witness shows); \<open>systemInstruction\<close> and \<open>tools\<close> are the caller's,
  unchanged.
\<close>

theorem generateContent_thinking_budget:
  assumes "k \<noteq> []"
  shows "snd (generateContent (Some k) sdk mdl prompt cfg) =
            sdk k \<lparr>model = mdl, contents = generateContent_parts prompt cfg,
                   config = snd (generateContent_config cfg)\<rparr>
       \<and> thinkingConfig (snd (generateContent_config cfg)) =
            map_option (\<lambda>b. \<lparr>thinkingBudget = b\<rparr>) (Option.bind cfg config.thinkingBudget)
       \<and> (thinkingConfig (snd (generateContent_config cfg)) \<noteq> None \<longleftrightarrow>
            Option.bind cfg config.thinkingBudget \<noteq> None)
       \<and> generateConfig.systemInstruction (snd (generateContent_config cfg)) =
            Option.bind cfg config.systemInstruction
       \<and> generateConfig.tools (snd (generateContent_config cfg)) = Option.bind cfg config.tools"
  using assms
  by (simp add: generateContent_sends thinkingConfig_config passthrough_config)

theorem generateContent_thinking_budget_witness:
  "str ''key'' \<noteq> []
   \<and> snd (generateContent (Some (str ''key'')) (\<lambda>k r. Inr r) (str ''m'') (str ''t'')
          (Some \<lparr>config.systemInstruction = Some (str ''be brief''),
                 thinkingBudget = Some (Num 0), tools = Some [\<lparr>googleSearch = Some (), googleMaps = None\<rparr>],
                 images = None, audio = None, geolocation = None\<rparr>)) =
         Inr \<lparr>model = str ''m'', contents = [Text (str ''t'')],
              config = \<lparr>generateConfig.systemInstruction = Some (str ''be brief''),
                         thinkingConfig = Some \<lparr>thinkingBudget = Num 0\<rparr>,
                         tools = Some [\<lparr>googleSearch = Some (), googleMaps = None\<rparr>],
                         toolConfig = None\<rparr>\<rparr>
   \<and> thinkingConfig (snd (generateContent_config
          (Some \<lparr>config.systemInstruction = Some (str ''be brief''),
                 thinkingBudget = Some (Num 0), tools = Some [\<lparr>googleSearch = Some (), googleMaps = None\<rparr>],
                 images = None, audio = None, geolocation = None\<rparr>))) =
        Some \<lparr>thinkingBudget = Num 0\<rparr>"
  using generateContent_thinking_budget [of "str ''key''" "\<lambda>k r. Inr r" "str ''m''" "str ''t''"
          "Some \<lparr>config.systemInstruction = Some (str ''be brief''),
                 thinkingBudget = Some (Num 0), tools = Some [\<lparr>googleSearch = Some (), googleMaps = None\<rparr>],
                 images = None, audio = None, geolocation = None\<rparr>"]
  by (simp add: str_def generateContent_parts_def truthy_str_def generateContent_config_def
        wantsMaps_def)

text \<open>
  Claim C8. The config sent carries a \<open>toolConfig\<close> exactly when some tool of the list
  has \<open>googleMaps\<close> and a position was supplied, and then it holds that position's
  latitude and longitude. When maps grounding is requested without a position the call
  still reaches the client, with no \<open>toolConfig\<close>, after logging one warning.
\<close>

theorem generateContent_geolocation:
  assumes "k \<noteq> []"
  shows "generateContent (Some k) sdk mdl prompt cfg =
            (if wantsMaps cfg \<and> Option.bind cfg geolocation = None
             then [ConsoleWarn (str ''Geolocation not provided for Google Maps grounding.'')]
             else [],
             sdk k \<lparr>model = mdl, contents = generateContent_parts prompt cfg,
                    config = snd (generateContent_config cfg)\<rparr>)
       \<and> (wantsMaps cfg \<longleftrightarrow>
            (\<exists>ts. Option.bind cfg config.tools = Some ts \<and> (\<exists>t \<in> set ts. googleMaps t \<noteq> None)))
       \<and> (toolConfig (snd (generateContent_config cfg)) \<noteq> None \<longleftrightarrow>
            wantsMaps cfg \<and> Option.bind cfg geolocation \<noteq> None)
       \<and> (\<forall>g. wantsMaps cfg \<and> Option.bind cfg geolocation = Some g \<longrightarrow>
              toolConfig (snd (generateContent_config cfg)) =
                Some \<lparr>retrievalConfig = \<lparr>latLng =
                  \<lparr>latitude = latitude (coords g), longitude = longitude (coords g)\<rparr>\<rparr>\<rparr>)"
proof (intro conjI)
  show "generateContent (Some k) sdk mdl prompt cfg =
            (if wantsMaps cfg \<and> Option.bind cfg geolocation = None
             then [ConsoleWarn (str ''Geolocation not provided for Google Maps grounding.'')]
             else [],
             sdk k \<lparr>model = mdl, contents = generateContent_parts prompt cfg,
                    config = snd (generateContent_config cfg)\<rparr>)"
    using assms by (simp only: generateContent_sends [OF assms] log_config)
  show "wantsMaps cfg \<longleftrightarrow>
            (\<exists>ts. Option.bind cfg config.tools = Some ts \<and> (\<exists>t \<in> set ts. googleMaps t \<noteq> None))"
    by (rule wantsMaps_iff)
qed (auto simp add: toolConfig_config)

theorem generateContent_geolocation_witness:
  "str ''key'' \<noteq> []
   \<and> snd (generateContent (Some (str ''key'')) (\<lambda>k r. Inr r) (str ''m'') (str ''t'')
          (Some \<lparr>config.systemInstruction = None, thinkingBudget = None,
                 tools = Some [\<lparr>googleSearch = None, googleMaps = Some ()\<rparr>],
                 images = None, audio = None,
                 geolocation = Some \<lparr>coords = \<lparr>latitude = Num 48, longitude = Num 2\<rparr>\<rparr>\<rparr>)) =
         Inr \<lparr>model = str ''m'', contents = [Text (str ''t'')],
              config = \<lparr>generateConfig.systemInstruction = None, thinkingConfig = None,
                         tools = Some [\<lparr>googleSearch = None, googleMaps = Some ()\<rparr>],
                         toolConfig = Some \<lparr>retrievalConfig = \<lparr>latLng =
                            \<lparr>latitude = Num 48, longitude = Num 2\<rparr>\<rparr>\<rparr>\<rparr>\<rparr>
   \<and> generateContent (Some (str ''key'')) (\<lambda>k r. Inr r) (str ''m'') (str ''t'')
          (Some \<lparr>config.systemInstruction = None, thinkingBudget = None,
                 tools = Some [\<lparr>googleSearch = None, googleMaps = Some ()\<rparr>],
                 images = None, audio = None, geolocation = None\<rparr>) =
         ([ConsoleWarn (str ''Geolocation not provided for Google Maps grounding.'')],
          Inr \<lparr>model = str ''m'', contents = [Text (str ''t'')],
              config = \<lparr>generateConfig.systemInstruction = None, thinkingConfig = None,
                         tools = Some [\<lparr>googleSearch = None, googleMaps = Some ()\<rparr>],
                         toolConfig = None\<rparr>\<rparr>)"
  using generateContent_geolocation [of "str ''key''" "\<lambda>k r. Inr r" "str ''m''" "str ''t''"
          "Some \<lparr>config.systemInstruction = None, thinkingBudget = None,
                 tools = Some [\<lparr>googleSearch = None, googleMaps = Some ()\<rparr>],
                 images = None, audio = None,
                 geolocation = Some \<lparr>coords = \<lparr>latitude = Num 48, longitude = Num 2\<rparr>\<rparr>\<rparr>"]
        generateContent_geolocation [of "str ''key''" "\<lambda>k r. Inr r" "str ''m''" "str ''t''"
          "Some \<lparr>config.systemInstruction = None, thinkingBudget = None,
                 tools = Some [\<lparr>googleSearch = None, googleMaps = Some ()\<rparr>],
                 images = None, audio = None, geolocation = None\<rparr>"]
  by (simp add: str_def generateContent_parts_def truthy_str_def generateContent_config_def
        wantsMaps_def)

section \<open>Properties of the codec\<close>

subsection \<open>Filling a typed array\<close>

lemma fillArray_step:
  "n \<le> length arr \<Longrightarrow>
   foldl (\<lambda>arr i. arr[i := f i]) arr [0..<n] = map f [0..<n] @ drop n arr"
proof (induction n)
  case 0
  show ?case by simp
next
  case (Suc n)
  then have n: "n < length arr" by simp
  have "foldl (\<lambda>arr i. arr[i := f i]) arr [0..<Suc n] =
        (map f [0..<n] @ drop n arr)[n := f n]"
    using Suc by simp
  also have "\<dots> = map f [0..<n] @ (drop n arr)[0 := f n]"
    by (simp add: list_update_append)
  also have "drop n arr = arr ! n # drop (Suc n) arr"
    using n by (simp add: Cons_nth_drop_Suc)
  finally show ?case by simp
qed

lemma fillArray_map: "fillArray len zero f = map f [0..<len]"
  unfolding fillArray_def using fillArray_step [of len "replicate len zero" f] by simp

lemma fillArray_nth: "fillArray (length xs) zero (\<lambda>i. g (xs ! i)) = map g xs"
  unfolding fillArray_map by (rule nth_equalityI) simp_all

lemma unat_small: "n < 65536 \<Longrightarrow> unat (of_nat n :: 16 word) = n"
  by (simp add: unat_of_nat)


subsection \<open>Base64 round trip\<close>

lemma b64value_b64char: "n < 64 \<Longrightarrow> b64value (b64char n) = Some n"
proof -
  assume n: "n < 64"
  consider "n < 26" | "26 \<le> n" "n < 52" | "52 \<le> n" "n < 62" | "n = 62" | "n = 63"
    using n by linarith
  then show ?thesis
  proof cases
    case 1
    then have "unat (of_nat (65 + n) :: 16 word) = 65 + n" by (intro unat_small) simp
    with 1 show ?thesis by (simp add: b64value_def b64char_def)
  next
    case 2
    then have "unat (of_nat (71 + n) :: 16 word) = 71 + n" by (intro unat_small) simp
    with 2 show ?thesis by (simp add: b64value_def b64char_def)
  next
    case 3
    then have "unat (of_nat (n - 4) :: 16 word) = n - 4" by (intro unat_small) simp
    with 3 show ?thesis by (simp add: b64value_def b64char_def Let_def) arith
  next
    case 4
    then show ?thesis by (simp add: b64value_def b64char_def)
  next
    case 5
    then show ?thesis by (simp add: b64value_def b64char_def)
  qed
qed

lemma unat_b64char: "unat (b64char n) \<in> {65..90} \<union> {97..122} \<union> {48..57} \<union> {43, 47}"
proof -
  consider "n < 26" | "26 \<le> n" "n < 52" | "52 \<le> n" "n < 62" | "n = 62" | "62 < n"
    by linarith
  then show ?thesis
  proof cases
    case 1
    then have "unat (of_nat (65 + n) :: 16 word) = 65 + n" by (intro unat_small) simp
    with 1 show ?thesis by (simp add: b64char_def)
  next
    case 2
    then have "unat (of_nat (71 + n) :: 16 word) = 71 + n" by (intro unat_small) simp
    with 2 show ?thesis by (simp add: b64char_def)
  next
    case 3
    then have "unat (of_nat (n - 4) :: 16 word) = n - 4" by (intro unat_small) simp
    with 3 show ?thesis by (simp add: b64char_def) arith
  next
    case 4
    then show ?thesis by (simp add: b64char_def)
  next
    case 5
    then show ?thesis by (simp add: b64char_def)
  qed
qed

lemma b64char_not_pad: "b64char n \<noteq> padChar"
proof
  assume "b64char n = padChar"
  then have "unat (b64char n) = 61" by (simp add: padChar_def)
  with unat_b64char [of n] show False by simp
qed

lemma b64char_not_ws: "\<not> asciiWhitespace (b64char n)"
proof
  assume "asciiWhitespace (b64char n)"
  then have "unat (b64char n) \<in> {9, 10, 12, 13, 32}"
    by (auto simp add: asciiWhitespace_def)
  with unat_b64char [of n] show False by auto
qed

lemma pad_not_ws: "\<not> asciiWhitespace padChar"
  by (simp add: asciiWhitespace_def padChar_def)

lemma b64encode_no_ws: "filter (\<lambda>c. \<not> asciiWhitespace c) (b64encode bs) = b64encode bs"
  by (induction bs rule: b64encode.induct) (simp_all add: b64char_not_ws pad_not_ws)

lemma length_b64encode: "length (b64encode bs) mod 4 = 0"
  by (induction bs rule: b64encode.induct) simp_all

lemma b64encode_long: "bs \<noteq> [] \<Longrightarrow> 4 \<le> length (b64encode bs)"
  by (induction bs rule: b64encode.induct) simp_all

lemma stripPadding_append:
  "2 \<le> length ys \<Longrightarrow> stripPadding (xs @ ys) = xs @ stripPadding ys"
proof -
  assume l: "2 \<le> length ys"
  then have ne: "ys \<noteq> []" "butlast ys \<noteq> []"
    by (auto simp add: butlast_conv_take)
  then show ?thesis
    using l by (simp add: stripPadding_def butlast_append last_append)
qed

lemma sextet_bounds:
  fixes a b c :: nat
  assumes "a < 256" "b < 256" "c < 256"
  shows "a div 4 < 64" "(a mod 4) * 16 + b div 16 < 64" "(b mod 16) * 4 + c div 64 < 64"
    "c mod 64 < 64" "(b mod 16) * 4 < 64" "(a mod 4) * 16 < 64"
proof -
  show "a div 4 < 64" using assms by simp
  have "a mod 4 < 4" "b div 16 < 16" "b mod 16 < 16" "c div 64 < 4" using assms by simp_all
  then show "(a mod 4) * 16 + b div 16 < 64" "(b mod 16) * 4 + c div 64 < 64"
    "(b mod 16) * 4 < 64" "(a mod 4) * 16 < 64" by simp_all
  show "c mod 64 < 64" by simp
qed

lemma sextet_join:
  fixes a b c :: nat
  assumes "a < 256" "b < 256" "c < 256"
  shows "a div 4 * 4 + ((a mod 4) * 16 + b div 16) div 16 = a"
    "(((a mod 4) * 16 + b div 16) mod 16) * 16 + ((b mod 16) * 4 + c div 64) div 4 = b"
    "(((b mod 16) * 4 + c div 64) mod 4) * 64 + c mod 64 = c"
    "(((a mod 4) * 16 + b div 16) mod 16) * 16 + ((b mod 16) * 4) div 4 = b"
    "a div 4 * 4 + ((a mod 4) * 16) div 16 = a"
proof -
  have bd: "b div 16 < 16" and cd: "c div 64 < 4" using assms by simp_all
  have q1: "((a mod 4) * 16 + b div 16) div 16 = a mod 4" using bd by simp
  have q2: "((a mod 4) * 16 + b div 16) mod 16 = b div 16" using bd by simp
  have q3: "((b mod 16) * 4 + c div 64) div 4 = b mod 16" using cd by simp
  have q4: "((b mod 16) * 4 + c div 64) mod 4 = c div 64" using cd by simp
  show "a div 4 * 4 + ((a mod 4) * 16 + b div 16) div 16 = a" unfolding q1 by simp
  show "(((a mod 4) * 16 + b div 16) mod 16) * 16 + ((b mod 16) * 4 + c div 64) div 4 = b"
    unfolding q2 q3 by simp
  show "(((b mod 16) * 4 + c div 64) mod 4) * 64 + c mod 64 = c" unfolding q4 by simp
  show "(((a mod 4) * 16 + b div 16) mod 16) * 16 + ((b mod 16) * 4) div 4 = b"
    unfolding q2 by simp
  show "a div 4 * 4 + ((a mod 4) * 16) div 16 = a" by simp
qed

lemma those_b64value_group:
  assumes "n1 < 64" "n2 < 64" "n3 < 64" "n4 < 64"
    and "those (map b64value cs) = Some ns"
  shows "those (map b64value (b64char n1 # b64char n2 # b64char n3 # b64char n4 # cs)) =
         Some (n1 # n2 # n3 # n4 # ns)"
  using assms by (simp add: b64value_b64char)

lemma b64_roundtrip_core:
  "\<forall>x \<in> set bs. x < 256 \<Longrightarrow>
   \<exists>ns. those (map b64value (stripPadding (b64encode bs))) = Some ns \<and> b64decode ns = bs \<and>
        length ns mod 4 \<noteq> 1"
proof (induction bs rule: b64encode.induct)
  case (1 a b c rest)
  then have abc: "a < 256" "b < 256" "c < 256" and rest: "\<forall>x \<in> set rest. x < 256"
    by simp_all
  from 1 rest obtain ns where ns: "those (map b64value (stripPadding (b64encode rest))) = Some ns"
    "b64decode ns = rest" "length ns mod 4 \<noteq> 1"
    by blast
  let ?n1 = "a div 4" and ?n2 = "(a mod 4) * 16 + b div 16"
    and ?n3 = "(b mod 16) * 4 + c div 64" and ?n4 = "c mod 64"
  have strip: "stripPadding (b64encode (a # b # c # rest)) =
        b64char ?n1 # b64char ?n2 # b64char ?n3 # b64char ?n4 # stripPadding (b64encode rest)"
  proof (cases "rest = []")
    case True
    then show ?thesis by (simp add: stripPadding_def b64char_not_pad)
  next
    case False
    then have "2 \<le> length (b64encode rest)" using b64encode_long [of rest] by simp
    then have "stripPadding ([b64char ?n1, b64char ?n2, b64char ?n3, b64char ?n4] @ b64encode rest) =
               [b64char ?n1, b64char ?n2, b64char ?n3, b64char ?n4] @ stripPadding (b64encode rest)"
      by (rule stripPadding_append)
    then show ?thesis by simp
  qed
  have "those (map b64value (stripPadding (b64encode (a # b # c # rest)))) =
          Some (?n1 # ?n2 # ?n3 # ?n4 # ns)"
    unfolding strip using sextet_bounds(1-4) [OF abc] ns(1) by (rule those_b64value_group)
  moreover have "b64decode (?n1 # ?n2 # ?n3 # ?n4 # ns) = a # b # c # rest"
    using sextet_join(1-3) [OF abc] ns(2) by simp
  moreover have "length (?n1 # ?n2 # ?n3 # ?n4 # ns) mod 4 \<noteq> 1"
    using ns(3) by simp
  ultimately show ?case by blast
next
  case (2 a b)
  then have ab: "a < 256" "b < 256" by simp_all
  have "stripPadding (b64encode [a, b]) =
          [b64char (a div 4), b64char ((a mod 4) * 16 + b div 16), b64char ((b mod 16) * 4)]"
    by (simp add: stripPadding_def b64char_not_pad)
  then have "those (map b64value (stripPadding (b64encode [a, b]))) =
          Some [a div 4, (a mod 4) * 16 + b div 16, (b mod 16) * 4]"
    using sextet_bounds(1,2,5) [OF ab ab(1)] by (simp add: b64value_b64char)
  moreover have "b64decode [a div 4, (a mod 4) * 16 + b div 16, (b mod 16) * 4] = [a, b]"
    using sextet_join(1,4) [OF ab ab(1)] by simp
  ultimately show ?case by force
next
  case (3 a)
  then have a: "a < 256" by simp
  have "stripPadding (b64encode [a]) = [b64char (a div 4), b64char ((a mod 4) * 16)]"
    by (simp add: stripPadding_def b64char_not_pad)
  then have "those (map b64value (stripPadding (b64encode [a]))) =
          Some [a div 4, (a mod 4) * 16]"
    using sextet_bounds(1,6) [OF a a a] by (simp add: b64value_b64char)
  moreover have "b64decode [a div 4, (a mod 4) * 16] = [a]"
    using sextet_join(5) [OF a a a] by simp
  ultimately show ?case by force
next
  case 4
  show ?case by (simp add: stripPadding_def)
qed

lemma those_length: "those xs = Some ys \<Longrightarrow> length ys = length xs"
  by (induction xs arbitrary: ys) (auto split: option.splits)

lemma atob_b64encode:
  assumes "\<forall>x \<in> set bs. x < 256"
  shows "atob (b64encode bs) = Inr (map of_nat bs)"
proof -
  from b64_roundtrip_core [OF assms] obtain ns where
    ns: "those (map b64value (stripPadding (b64encode bs))) = Some ns" "b64decode ns = bs"
      "length ns mod 4 \<noteq> 1"
    by blast
  from those_length [OF ns(1)] have "length (stripPadding (b64encode bs)) = length ns" by simp
  with ns show ?thesis
    by (simp add: atob_def b64encode_no_ws length_b64encode)
qed

lemma binary_string:
  "foldl (\<lambda>binary b. binary @ [fromCharCode b]) acc bytes = acc @ map fromCharCode bytes"
  by (induction bytes arbitrary: acc) simp_all

lemma unat_byte: "unat (b :: byte) < 256"
  using unsigned_less [of b, where ?'a = nat] by simp

lemma unat_fromCharCode: "unat (fromCharCode b) = unat b"
proof -
  have "unat b < 2 ^ 16" using unat_byte [of b] by simp
  then show ?thesis
    by (simp add: fromCharCode_def unsigned_ucast_eq take_bit_nat_eq_self)
qed

lemma encode_eq: "encode bytes = Inr (b64encode (map unat bytes))"
proof -
  have "\<And>b :: byte. \<not> 255 < unat b" using unat_byte by (simp add: not_less less_Suc_eq_le [symmetric])
  then have "\<not> list_ex (\<lambda>c. 255 < unat c) (map fromCharCode bytes)"
    by (simp add: list_ex_iff unat_fromCharCode)
  then show ?thesis
    by (simp add: encode_def btoa_def binary_string unat_fromCharCode comp_def)
qed

lemma byte_of_code_unit: "(ucast (ucast (b :: byte) :: code_unit) :: byte) = b"
  by (rule ucast_up_ucast_id) (simp add: is_up)

lemma decode_b64encode: "decode (b64encode (map unat bytes)) = Inr bytes"
proof -
  let ?S = "map of_nat (map unat bytes) :: jsstring"
  have "\<forall>x \<in> set (map unat bytes). x < 256" using unat_byte by auto
  then have "atob (b64encode (map unat bytes)) = Inr ?S"
    by (rule atob_b64encode)
  then have "decode (b64encode (map unat bytes)) =
               Inr (fillArray (length ?S) 0 (\<lambda>i. (ucast (?S ! i) :: byte)))"
    by (simp only: decode_def Let_def sum.case)
  also have "fillArray (length ?S) 0 (\<lambda>i. (ucast (?S ! i) :: byte)) = map ucast ?S"
    by (rule fillArray_nth)
  also have "map ucast ?S = bytes"
    by (simp add: comp_def byte_of_code_unit)
  finally show ?thesis .
qed

text \<open>
  Claim C1. For every byte sequence \<open>b\<close>, \<open>encode b\<close> succeeds with a text, and \<open>decode\<close> of
  that text succeeds with exactly \<open>b\<close>.
\<close>

theorem decode_encode_roundtrip:
  "\<exists>text. encode b = Inr text \<and> decode text = Inr b"
  using encode_eq [of b] decode_b64encode [of b] by blast

theorem decode_encode_roundtrip_witness:
  "encode [72, 105] = Inr (str ''SGk='') \<and> decode (str ''SGk='') = Inr [72, 105]"
proof -
  from decode_encode_roundtrip [of "[72, 105]"]
  obtain t where t: "encode [72, 105] = Inr t" "decode t = Inr [72, 105]" by blast
  have "encode [72, 105] = Inr (str ''SGk='')"
    by (simp add: encode_def btoa_def fromCharCode_def b64char_def padChar_def str_def)
  with t show ?thesis by simp
qed

subsection \<open>Samples to PCM and back\<close>

lemma unat_int16: "unat (w :: 16 word) < 65536"
  using unsigned_less [of w, where ?'a = nat] by simp

lemma unat_of_nat_byte: "n < 256 \<Longrightarrow> unat (of_nat n :: byte) = n"
  by (simp add: unat_of_nat)

lemma int16_of_bytes:
  "(of_nat (unat (of_nat (unat w mod 256) :: byte) + 256 * unat (of_nat (unat w div 256) :: byte))
      :: 16 word) = w"
proof -
  have "unat w div 256 < 256" using unat_int16 [of w] by simp
  then have "unat (of_nat (unat w div 256) :: byte) = unat w div 256"
    by (rule unat_of_nat_byte)
  moreover have "unat (of_nat (unat w mod 256) :: byte) = unat w mod 256"
    by (rule unat_of_nat_byte) simp
  ultimately have "unat (of_nat (unat w mod 256) :: byte) +
      256 * unat (of_nat (unat w div 256) :: byte) = unat w"
    by simp
  then show ?thesis by (simp only: of_nat_unat ucast_id)
qed

lemma bytesInt16_int16Bytes: "bytesInt16 (int16Bytes ws) = ws"
proof (induction ws)
  case Nil
  show ?case by (simp add: int16Bytes_def)
next
  case (Cons w ws)
  have "bytesInt16 (int16Bytes (w # ws)) =
          of_nat (unat (of_nat (unat w mod 256) :: byte) + 256 * unat (of_nat (unat w div 256) :: byte))
          # bytesInt16 (int16Bytes ws)"
    by (simp only: int16Bytes_def list.map concat.simps append.simps bytesInt16.simps)
  then show ?case by (simp only: int16_of_bytes Cons.IH)
qed

lemma length_int16Bytes: "length (int16Bytes ws) = 2 * length ws"
  by (induction ws) (simp_all add: int16Bytes_def)

lemma asInt16Array_int16Bytes: "asInt16Array (int16Bytes ws) = Inr ws"
  by (simp add: asInt16Array_def length_int16Bytes bytesInt16_int16Bytes)

lemma sint_toInt16:
  "sint (toInt16 (times32768 (Num r))) = (truncateToInt (r * 32768) + 32768) mod 65536 - 32768"
  by (simp add: toInt16_def times32768_def int_word_sint)

lemma truncate_range:
  assumes "- 1 \<le> r" "r < 1"
  shows "- 32768 \<le> truncateToInt (r * 32768)" "truncateToInt (r * 32768) < 32768"
proof -
  have lo: "- 32768 \<le> r * 32768" and hi: "r * 32768 < 32768" using assms by simp_all
  show "- 32768 \<le> truncateToInt (r * 32768)"
    using lo by (simp add: truncateToInt_def le_floor_iff le_ceiling_iff)
  show "truncateToInt (r * 32768) < 32768"
    using hi by (simp add: truncateToInt_def floor_less_iff ceiling_less_iff)
qed

lemma truncate_near_round: "\<bar>truncateToInt x - round x\<bar> \<le> 1"
  unfolding truncateToInt_def round_def by (simp split: if_splits) linarith

lemma sint_in_range:
  assumes "- 1 \<le> r" "r < 1"
  shows "sint (toInt16 (times32768 (Num r))) = truncateToInt (r * 32768)"
proof -
  from truncate_range [OF assms]
  have "0 \<le> truncateToInt (r * 32768) + 32768" "truncateToInt (r * 32768) + 32768 < 65536"
    by simp_all
  then have "(truncateToInt (r * 32768) + 32768) mod 65536 = truncateToInt (r * 32768) + 32768"
    by simp
  then show ?thesis by (simp add: sint_toInt16)
qed

lemma createPcmBlob_eq:
  "createPcmBlob toString samples sampleRate =
     Inr \<lparr>blob.data = b64encode (map unat (int16Bytes (map (\<lambda>x. toInt16 (times32768 x)) samples))),
          mimeType = str ''audio/pcm;rate='' @ toString sampleRate\<rparr>"
proof -
  have "fillArray (length samples) 0 (\<lambda>i. toInt16 (times32768 (samples ! i))) =
          map (\<lambda>x. toInt16 (times32768 x)) samples"
    by (rule fillArray_nth)
  then show ?thesis by (simp add: createPcmBlob_def encode_eq)
qed

text \<open>
  Claim C2, as amended. \<open>createPcmBlob\<close> always succeeds; its \<open>mimeType\<close> is
  \<open>audio/pcm;rate=\<close> followed by the sample rate as the host prints it; decoding its \<open>data\<close>
  and reading the bytes as little-endian 16-bit integers gives one integer for each sample.
  For a finite sample \<open>r\<close> that integer is \<open>r * 32768\<close> truncated towards zero and wrapped
  into the signed 16-bit range, with no clamping. For \<open>- 1 \<le> r < 1\<close> nothing wraps: the integer
  is the truncated product, within one unit of \<open>round (r * 32768)\<close>.
\<close>

theorem createPcmBlob_then_decode:
  "\<exists>text bytes int16.
      createPcmBlob toString samples sampleRate =
        Inr \<lparr>blob.data = text, mimeType = str ''audio/pcm;rate='' @ toString sampleRate\<rparr>
    \<and> decode text = Inr bytes
    \<and> asInt16Array bytes = Inr int16
    \<and> length int16 = length samples
    \<and> (\<forall>i < length samples.
          int16 ! i = toInt16 (times32768 (samples ! i))
        \<and> (\<forall>r. samples ! i = Num r \<longrightarrow>
              sint (int16 ! i) = (truncateToInt (r * 32768) + 32768) mod 65536 - 32768)
        \<and> (\<forall>r. samples ! i = Num r \<and> - 1 \<le> r \<and> r < 1 \<longrightarrow>
              sint (int16 ! i) = truncateToInt (r * 32768)
            \<and> \<bar>sint (int16 ! i) - round (r * 32768)\<bar> \<le> 1))"
proof (intro exI conjI allI impI)
  let ?ws = "map (\<lambda>x. toInt16 (times32768 x)) samples"
  show "createPcmBlob toString samples sampleRate =
        Inr \<lparr>blob.data = b64encode (map unat (int16Bytes ?ws)),
             mimeType = str ''audio/pcm;rate='' @ toString sampleRate\<rparr>"
    by (rule createPcmBlob_eq)
  show "decode (b64encode (map unat (int16Bytes ?ws))) = Inr (int16Bytes ?ws)"
    by (rule decode_b64encode)
  show "asInt16Array (int16Bytes ?ws) = Inr ?ws"
    by (rule asInt16Array_int16Bytes)
  show "length ?ws = length samples" by simp
next
  fix i assume "i < length samples"
  then show "map (\<lambda>x. toInt16 (times32768 x)) samples ! i = toInt16 (times32768 (samples ! i))"
    by simp
next
  fix i r assume "i < length samples" "samples ! i = Num r"
  then show "sint (map (\<lambda>x. toInt16 (times32768 x)) samples ! i) =
               (truncateToInt (r * 32768) + 32768) mod 65536 - 32768"
    by (simp add: sint_toInt16)
next
  fix i r assume i: "i < length samples" and r: "samples ! i = Num r \<and> - 1 \<le> r \<and> r < 1"
  then have s: "sint (map (\<lambda>x. toInt16 (times32768 x)) samples ! i) = truncateToInt (r * 32768)"
    by (simp add: sint_in_range)
  then show "sint (map (\<lambda>x. toInt16 (times32768 x)) samples ! i) = truncateToInt (r * 32768)" .
  show "\<bar>sint (map (\<lambda>x. toInt16 (times32768 x)) samples ! i) - round (r * 32768)\<bar> \<le> 1"
    unfolding s by (rule truncate_near_round)
qed

text \<open>
  The witness has samples whose products are not integers: \<open>- 5 / 2\<close> is stored as \<open>- 2\<close>
  and \<open>1 / 2\<close> as \<open>0\<close>. Its host prints the rate \<open>16000\<close> as the digits \<open>16000\<close>.
\<close>

lemma createPcmBlob_fractions:
  "createPcmBlob (\<lambda>x. if x = Num 16000 then str ''16000'' else [])
     [Num (- 5 / 65536), Num (1 / 65536), Num (1 / 2)] (Num 16000) =
     Inr \<lparr>blob.data = str ''/v8AAABA'', mimeType = str ''audio/pcm;rate=16000''\<rparr>"
  by (simp add: createPcmBlob_eq toInt16_def times32768_def
        truncateToInt_def int16Bytes_def b64char_def padChar_def str_def)

theorem createPcmBlob_then_decode_witness:
  "createPcmBlob (\<lambda>x. if x = Num 16000 then str ''16000'' else [])
     [Num (- 5 / 65536), Num (1 / 65536), Num (1 / 2)] (Num 16000) =
     Inr \<lparr>blob.data = str ''/v8AAABA'', mimeType = str ''audio/pcm;rate=16000''\<rparr>
   \<and> (\<exists>bytes int16. decode (str ''/v8AAABA'') = Inr bytes \<and> asInt16Array bytes = Inr int16
        \<and> sint (int16 ! 0) = - 2 \<and> sint (int16 ! 1) = 0 \<and> sint (int16 ! 2) = 16384)"
proof -
  let ?S = "[Num (- 5 / 65536), Num (1 / 65536), Num (1 / 2)]"
  let ?P = "\<lambda>x. if x = Num 16000 then str ''16000'' else []"
  from createPcmBlob_then_decode [of ?P ?S "Num 16000"]
  obtain b64 bytes int16 where
    c: "createPcmBlob ?P ?S (Num 16000) =
          Inr \<lparr>blob.data = b64, mimeType = str ''audio/pcm;rate='' @ ?P (Num 16000)\<rparr>"
    and d: "decode b64 = Inr bytes" and a: "asInt16Array bytes = Inr int16"
    and p: "\<forall>i < length ?S.
          int16 ! i = toInt16 (times32768 (?S ! i))
        \<and> (\<forall>r. ?S ! i = Num r \<longrightarrow>
              sint (int16 ! i) = (truncateToInt (r * 32768) + 32768) mod 65536 - 32768)
        \<and> (\<forall>r. ?S ! i = Num r \<and> - 1 \<le> r \<and> r < 1 \<longrightarrow>
              sint (int16 ! i) = truncateToInt (r * 32768)
            \<and> \<bar>sint (int16 ! i) - round (r * 32768)\<bar> \<le> 1)"
    by blast
  from c have t: "b64 = str ''/v8AAABA''"
    by (simp only: createPcmBlob_fractions) simp
  have "0 < length ?S"
    and "?S ! 0 = Num (- 5 / 65536) \<and> - 1 \<le> (- 5 / 65536 :: real) \<and> (- 5 / 65536 :: real) < 1"
    by simp_all
  with p have "sint (int16 ! 0) = truncateToInt ((- 5 / 65536) * 32768)"
    by blast
  then have s0: "sint (int16 ! 0) = - 2" by (simp add: truncateToInt_def)
  have "1 < length ?S"
    and "?S ! 1 = Num (1 / 65536) \<and> - 1 \<le> (1 / 65536 :: real) \<and> (1 / 65536 :: real) < 1"
    by simp_all
  with p have "sint (int16 ! 1) = truncateToInt ((1 / 65536) * 32768)"
    by blast
  then have s1: "sint (int16 ! 1) = 0" by (simp add: truncateToInt_def)
  have "2 < length ?S" and "?S ! 2 = Num (1 / 2) \<and> - 1 \<le> (1 / 2 :: real) \<and> (1 / 2 :: real) < 1"
    by simp_all
  with p have "sint (int16 ! 2) = truncateToInt ((1 / 2) * 32768)"
    by blast
  then have s2: "sint (int16 ! 2) = 16384" by (simp add: truncateToInt_def)
  from d a s0 s1 s2 show ?thesis
    unfolding t by (intro conjI createPcmBlob_fractions) blast
qed

text \<open>
  Claim C2 as stated includes the sample \<open>1\<close>. Its product \<open>32768\<close> is one above the largest
  16-bit integer and wraps to \<open>- 32768\<close>, which is \<open>65536\<close> away from \<open>round (1 * 32768)\<close>.
\<close>

theorem createPcmBlob_full_scale_counterexample:
  "createPcmBlob (\<lambda>x. if x = Num 16000 then str ''16000'' else []) [Num 1] (Num 16000) =
     Inr \<lparr>blob.data = str ''AIA='', mimeType = str ''audio/pcm;rate=16000''\<rparr>
   \<and> decode (str ''AIA='') = Inr [0, 128]
   \<and> asInt16Array [0, 128] = Inr [- 32768]
   \<and> \<not> \<bar>sint (- 32768 :: 16 word) - round ((1 :: real) * 32768)\<bar> \<le> 1"
proof (intro conjI)
  show "createPcmBlob (\<lambda>x. if x = Num 16000 then str ''16000'' else []) [Num 1] (Num 16000) =
     Inr \<lparr>blob.data = str ''AIA='', mimeType = str ''audio/pcm;rate=16000''\<rparr>"
    by (simp add: createPcmBlob_eq toInt16_def times32768_def
        truncateToInt_def int16Bytes_def b64char_def padChar_def str_def)
  show "decode (str ''AIA='') = Inr [0, 128]"
    by (simp add: decode_def atob_def asciiWhitespace_def stripPadding_def padChar_def
          b64value_def fillArray_map str_def)
  show "asInt16Array [0, 128] = Inr [- 32768]"
    by (simp add: asInt16Array_def)
  show "\<not> \<bar>sint (- 32768 :: 16 word) - round ((1 :: real) * 32768)\<bar> \<le> 1"
    by simp
qed

subsection \<open>PCM bytes to an audio audioBuffer\<close>

lemma length_bytesInt16: "length (bytesInt16 bytes) = length bytes div 2"
  by (induction bytes rule: bytesInt16.induct) simp_all

lemma bytesInt16_nth:
  "2 * k + 1 < length bytes \<Longrightarrow>
   bytesInt16 bytes ! k = of_nat (unat (bytes ! (2 * k)) + 256 * unat (bytes ! (2 * k + 1)))"
proof (induction bytes arbitrary: k rule: bytesInt16.induct)
  case (1 lo hi rest)
  show ?case
  proof (cases k)
    case 0
    then show ?thesis by simp
  next
    case (Suc j)
    with 1 have "2 * j + 1 < length rest" by simp
    then have "bytesInt16 rest ! j =
        of_nat (unat (rest ! (2 * j)) + 256 * unat (rest ! (2 * j + 1)))"
      by (rule "1.IH")
    with Suc show ?thesis by simp
  qed
next
  case (2 lo)
  then show ?case by simp
next
  case 3
  then show ?case by simp
qed

lemma writeAt_length: "length (writeAt arr i v) = length arr"
  by (simp add: writeAt_def)

lemma frames_loop:
  "length (foldl (\<lambda>channelData i. writeAt channelData i (f i)) arr [0..<m]) = length arr
   \<and> (\<forall>i < length arr.
        foldl (\<lambda>channelData i. writeAt channelData i (f i)) arr [0..<m] ! i =
          (if i < m then f i else arr ! i))"
proof (induction m)
  case 0
  show ?case by simp
next
  case (Suc m)
  let ?prev = "foldl (\<lambda>channelData i. writeAt channelData i (f i)) arr [0..<m]"
  have step: "foldl (\<lambda>channelData i. writeAt channelData i (f i)) arr [0..<Suc m] =
          writeAt ?prev m (f m)"
    by simp
  from Suc have len: "length ?prev = length arr"
    and nth: "\<forall>i < length arr. ?prev ! i = (if i < m then f i else arr ! i)"
    by blast+
  show ?case
  proof (intro conjI allI impI)
    show "length (foldl (\<lambda>channelData i. writeAt channelData i (f i)) arr [0..<Suc m]) = length arr"
      unfolding step by (simp add: writeAt_length len)
    fix i assume i: "i < length arr"
    show "foldl (\<lambda>channelData i. writeAt channelData i (f i)) arr [0..<Suc m] ! i =
          (if i < Suc m then f i else arr ! i)"
      unfolding step using i nth len by (auto simp add: writeAt_def nth_list_update less_Suc_eq)
  qed
qed

lemma frameIndices_whole: "frameIndices (Num (real n)) = [0..<n]"
  by (simp add: frameIndices_def)

lemma fillChannel_whole:
  assumes "length channelData0 = n"
  shows "length (fillChannel dataInt16 numChannels (Num (real n)) channel channelData0) = n"
    and "i < n \<Longrightarrow>
         fillChannel dataInt16 numChannels (Num (real n)) channel channelData0 ! i =
           sampleAt dataInt16 (i * numChannels + channel)"
  using frames_loop [of "\<lambda>i. sampleAt dataInt16 (i * numChannels + channel)" channelData0 n] assms
  by (simp_all add: fillChannel_def frameIndices_whole)

lemma channels_loop:
  "k \<le> length buffer0 \<Longrightarrow>
   \<exists>audioBuffer. foldl (channelTurn dataInt16 numChannels frameCount) (Inr buffer0) [0..<k] = Inr audioBuffer
     \<and> length audioBuffer = length buffer0
     \<and> (\<forall>c < length buffer0. audioBuffer ! c =
           (if c < k then fillChannel dataInt16 numChannels frameCount c (buffer0 ! c)
            else buffer0 ! c))"
proof (induction k)
  case 0
  show ?case by simp
next
  case (Suc k)
  then obtain audioBuffer where
    b: "foldl (channelTurn dataInt16 numChannels frameCount) (Inr buffer0) [0..<k] = Inr audioBuffer"
    and len: "length audioBuffer = length buffer0"
    and nth: "\<forall>c < length buffer0. audioBuffer ! c =
           (if c < k then fillChannel dataInt16 numChannels frameCount c (buffer0 ! c)
            else buffer0 ! c)"
    by auto
  from Suc.prems len have k: "k < length audioBuffer" by simp
  let ?next = "audioBuffer[k := fillChannel dataInt16 numChannels frameCount k (audioBuffer ! k)]"
  have "foldl (channelTurn dataInt16 numChannels frameCount) (Inr buffer0) [0..<Suc k] = Inr ?next"
    using b k by (simp add: channelTurn_def)
  moreover have "length ?next = length buffer0" using len by simp
  moreover have "\<forall>c < length buffer0. ?next ! c =
           (if c < Suc k then fillChannel dataInt16 numChannels frameCount c (buffer0 ! c)
            else buffer0 ! c)"
    using nth len k by (auto simp add: nth_list_update less_Suc_eq)
  ultimately show ?case by blast
qed

text \<open>
  The samples are those of the whole buffer under the array: for a buffer of
  \<open>2 * numChannels * frames\<close> bytes and a context whose \<open>createBuffer\<close> returns \<open>numChannels\<close>
  channels of \<open>frames\<close> samples, the sample at frame \<open>i\<close> of channel \<open>c\<close> is the little-endian
  signed 16-bit integer at position \<open>i * numChannels + c\<close> of the buffer, divided by \<open>32768\<close>.
\<close>

lemma decodeAudioData_whole_buffer:
  assumes channels: "0 < numChannels"
    and bytes: "length (buffer dataArray) = 2 * numChannels * frames"
    and host: "createBuffer ctx numChannels (Num (real frames)) sampleRate = Inr buffer0"
    and shape: "length buffer0 = numChannels" "\<forall>channelData \<in> set buffer0. length channelData = frames"
  shows "\<exists>audioBuffer. decodeAudioData dataArray ctx sampleRate numChannels = Inr audioBuffer
      \<and> length audioBuffer = numChannels
      \<and> (\<forall>c < numChannels. length (audioBuffer ! c) = frames
          \<and> (\<forall>i < frames. audioBuffer ! c ! i =
                Num (real_of_int (sint (of_nat (unat (buffer dataArray ! (2 * (i * numChannels + c))) +
                       256 * unat (buffer dataArray ! (2 * (i * numChannels + c) + 1))) :: 16 word))
                     / 32768)))"
proof -
  let ?d = "bytesInt16 (buffer dataArray)"
  have even: "\<not> odd (length (buffer dataArray))" using bytes by simp
  have len: "length ?d = numChannels * frames"
    using bytes by (simp add: length_bytesInt16)
  have fc: "frameCountOf (length ?d) numChannels = Num (real frames)"
    using channels by (simp add: frameCountOf_def len)
  from channels_loop [of numChannels buffer0 ?d numChannels "Num (real frames)"] shape(1)
  obtain audioBuffer where
    run: "foldl (channelTurn ?d numChannels (Num (real frames))) (Inr buffer0) [0..<numChannels] =
            Inr audioBuffer"
    and blen: "length audioBuffer = numChannels"
    and bnth: "\<forall>c < numChannels. audioBuffer ! c =
                 fillChannel ?d numChannels (Num (real frames)) c (buffer0 ! c)"
    by auto
  have res: "decodeAudioData dataArray ctx sampleRate numChannels = Inr audioBuffer"
    using even by (simp add: decodeAudioData_def asInt16Array_def fc host run)
  have samples: "length (audioBuffer ! c) = frames
          \<and> (\<forall>i < frames. audioBuffer ! c ! i =
                Num (real_of_int (sint (of_nat (unat (buffer dataArray ! (2 * (i * numChannels + c))) +
                       256 * unat (buffer dataArray ! (2 * (i * numChannels + c) + 1))) :: 16 word))
                     / 32768))" if c: "c < numChannels" for c
  proof (intro conjI allI impI)
    from c shape have l0: "length (buffer0 ! c) = frames" by simp
    from c bnth have eq: "audioBuffer ! c = fillChannel ?d numChannels (Num (real frames)) c (buffer0 ! c)"
      by simp
    show "length (audioBuffer ! c) = frames"
      unfolding eq using l0 by (rule fillChannel_whole(1))
    fix i assume i: "i < frames"
    have "i * numChannels + c < (i + 1) * numChannels" using c by simp
    also have "\<dots> \<le> frames * numChannels"
    proof (rule mult_le_mono1)
      show "i + 1 \<le> frames" using i by simp
    qed
    finally have k: "i * numChannels + c < numChannels * frames" by (simp add: mult.commute)
    then have inb: "2 * (i * numChannels + c) + 1 < length (buffer dataArray)" using bytes by simp
    have "audioBuffer ! c ! i = sampleAt ?d (i * numChannels + c)"
      unfolding eq using l0 i by (rule fillChannel_whole(2))
    also have "\<dots> = Num (real_of_int (sint (?d ! (i * numChannels + c))) / 32768)"
      using k len by (simp add: sampleAt_def)
    also have "?d ! (i * numChannels + c) =
        of_nat (unat (buffer dataArray ! (2 * (i * numChannels + c))) +
                256 * unat (buffer dataArray ! (2 * (i * numChannels + c) + 1)))"
      using inb by (rule bytesInt16_nth)
    finally show "audioBuffer ! c ! i =
                Num (real_of_int (sint (of_nat (unat (buffer dataArray ! (2 * (i * numChannels + c))) +
                       256 * unat (buffer dataArray ! (2 * (i * numChannels + c) + 1))) :: 16 word))
                     / 32768)" .
  qed
  from res blen samples show ?thesis by blast
qed

lemma elements_spansBuffer: "spansBuffer dataArray \<Longrightarrow> elements dataArray = buffer dataArray"
  by (simp add: spansBuffer_def elements_def)





section \<open>Properties of the handshake and of error normalisation\<close>

text \<open>\<open>includes_str\<close> is the substring relation.\<close>

lemma startsWith_iff: "startsWith hay needle \<longleftrightarrow> (\<exists>s. hay = needle @ s)"
  by (induction hay needle rule: startsWith.induct) auto

lemma includes_str_iff: "includes_str hay needle \<longleftrightarrow> (\<exists>p s. hay = p @ needle @ s)"
proof (induction hay)
  case Nil
  then show ?case by auto
next
  case (Cons h hs)
  show ?case
  proof
    assume "includes_str (h # hs) needle"
    then consider "startsWith (h # hs) needle" | "includes_str hs needle" by auto
    then show "\<exists>p s. h # hs = p @ needle @ s"
    proof cases
      case 1
      then obtain s where "h # hs = needle @ s" by (auto simp: startsWith_iff)
      then have "h # hs = [] @ needle @ s" by simp
      then show ?thesis by blast
    next
      case 2
      then obtain p s where "hs = p @ needle @ s" using Cons.IH by auto
      then have "h # hs = (h # p) @ needle @ s" by simp
      then show ?thesis by blast
    qed
  next
    assume "\<exists>p s. h # hs = p @ needle @ s"
    then obtain p s where ps: "h # hs = p @ needle @ s" by blast
    show "includes_str (h # hs) needle"
    proof (cases p)
      case Nil
      with ps have "startsWith (h # hs) needle" by (auto simp: startsWith_iff)
      then show ?thesis by simp
    next
      case (Cons a p')
      with ps have "hs = p' @ needle @ s" by simp
      then have "includes_str hs needle" using Cons.IH by blast
      then show ?thesis by simp
    qed
  qed
qed

lemma includes_str_prefix: "includes_str (a @ b) a"
  unfolding includes_str_iff by (rule exI [of _ "[]"], rule exI [of _ b]) simp

lemma includes_str_suffix: "includes_str (a @ b) b"
  unfolding includes_str_iff by (rule exI [of _ a], rule exI [of _ "[]"]) simp

lemma includes_str_append: "includes_str a n \<Longrightarrow> includes_str (a @ b) n"
  unfolding includes_str_iff by (metis append.assoc)

text \<open>
  Claim C9, as amended. \<open>checkAndSelectVeoApiKey\<close> never returns \<open>false\<close>. It returns
  \<open>true\<close> when the host API is unavailable, when a key is already selected, and when none
  is selected and the call of \<open>openSelectKey\<close> resolves (it is called once). It has no other
  outcome than an exception it does not catch: a rejection by one of the two awaited host
  calls, or the call of an absent \<open>openSelectKey\<close>.
\<close>

theorem checkAndSelectVeoApiKey_returns_true:
  "(\<forall>b. snd (checkAndSelectVeoApiKey win) = Inr b \<longrightarrow> b)
   \<and> (Option.bind (Option.bind win aistudio) hasSelectedApiKey = None \<longrightarrow>
        snd (checkAndSelectVeoApiKey win) = Inr True)
   \<and> (Option.bind (Option.bind win aistudio) hasSelectedApiKey = Some (Inr True) \<longrightarrow>
        checkAndSelectVeoApiKey win = ([CallHasSelectedApiKey], Inr True))
   \<and> (Option.bind (Option.bind win aistudio) hasSelectedApiKey = Some (Inr False) \<and>
      Option.bind (Option.bind win aistudio) openSelectKey = Some (Inr ()) \<longrightarrow>
        snd (checkAndSelectVeoApiKey win) = Inr True \<and>
        count_list (fst (checkAndSelectVeoApiKey win)) CallOpenSelectKey = 1)
   \<and> (\<forall>e. snd (checkAndSelectVeoApiKey win) = Inl e \<longleftrightarrow>
        Option.bind (Option.bind win aistudio) hasSelectedApiKey = Some (Inl e) \<or>
        Option.bind (Option.bind win aistudio) hasSelectedApiKey = Some (Inr False) \<and>
          (Option.bind (Option.bind win aistudio) openSelectKey = Some (Inl e) \<or>
           Option.bind (Option.bind win aistudio) openSelectKey = None \<and> e = TypeError))"
  by (auto simp add: checkAndSelectVeoApiKey_def Let_def split: option.splits sum.splits)

theorem checkAndSelectVeoApiKey_returns_true_witness:
  "snd (checkAndSelectVeoApiKey None) = Inr True
   \<and> snd (checkAndSelectVeoApiKey (Some \<lparr>aistudio = None\<rparr>)) = Inr True
   \<and> checkAndSelectVeoApiKey (Some \<lparr>aistudio = Some \<lparr>hasSelectedApiKey = Some (Inr True),
         openSelectKey = Some (Inr ())\<rparr>\<rparr>) = ([CallHasSelectedApiKey], Inr True)
   \<and> snd (checkAndSelectVeoApiKey (Some \<lparr>aistudio = Some \<lparr>hasSelectedApiKey = Some (Inr False),
         openSelectKey = Some (Inr ())\<rparr>\<rparr>)) = Inr True
   \<and> count_list (fst (checkAndSelectVeoApiKey (Some \<lparr>aistudio = Some
         \<lparr>hasSelectedApiKey = Some (Inr False), openSelectKey = Some (Inr ())\<rparr>\<rparr>)))
         CallOpenSelectKey = 1"
  using checkAndSelectVeoApiKey_returns_true [of None]
    checkAndSelectVeoApiKey_returns_true [of "Some \<lparr>aistudio = None\<rparr>"]
    checkAndSelectVeoApiKey_returns_true [of "Some \<lparr>aistudio = Some
       \<lparr>hasSelectedApiKey = Some (Inr True), openSelectKey = Some (Inr ())\<rparr>\<rparr>"]
    checkAndSelectVeoApiKey_returns_true [of "Some \<lparr>aistudio = Some
       \<lparr>hasSelectedApiKey = Some (Inr False), openSelectKey = Some (Inr ())\<rparr>\<rparr>"]
  by simp

text \<open>
  Claim C9 as stated has the function return \<open>true\<close> on every path and never report a
  failure. The two host calls are awaited without a \<^verbatim>\<open>catch\<close> (source lines 90 and 93), and only
  \<open>hasSelectedApiKey\<close> is tested for presence (source line 85): when \<open>hasSelectedApiKey\<close>
  rejects, and when no key is selected and \<open>openSelectKey\<close> is absent, the caller gets an
  exception.
\<close>

theorem checkAndSelectVeoApiKey_throws_counterexample:
  "snd (checkAndSelectVeoApiKey (Some \<lparr>aistudio = Some
         \<lparr>hasSelectedApiKey = Some (Inl (Rejected (str ''offline''))),
          openSelectKey = Some (Inr ())\<rparr>\<rparr>)) = Inl (Rejected (str ''offline''))
   \<and> snd (checkAndSelectVeoApiKey (Some \<lparr>aistudio = Some
         \<lparr>hasSelectedApiKey = Some (Inr False), openSelectKey = None\<rparr>\<rparr>)) = Inl TypeError
   \<and> snd (checkAndSelectVeoApiKey (Some \<lparr>aistudio = Some
         \<lparr>hasSelectedApiKey = Some (Inr False), openSelectKey = None\<rparr>\<rparr>)) \<noteq> Inr True"
  by (simp add: checkAndSelectVeoApiKey_def)

lemma count_effects:
  "count_list (fst (handleApiError toString win err)) CallOpenSelectKey =
     (if includes_str (baseMessage toString err) (str ''Requested entity was not found.'') \<and>
         Option.bind (Option.bind win aistudio) openSelectKey \<noteq> None then 1 else 0)"
  by (auto simp add: handleApiError_def Let_def split: option.splits)

lemma message_handleApiError:
  "snd (handleApiError toString win err) =
     (if includes_str (baseMessage toString err) (str ''Requested entity was not found.'')
      then baseMessage toString err @ keyHint else baseMessage toString err)"
  by (auto simp add: handleApiError_def Let_def split: option.splits)

lemma baseMessage_message:
  "apiError.message err = Some m \<Longrightarrow> m \<noteq> [] \<Longrightarrow> baseMessage toString err = m"
  by (simp add: baseMessage_def truthy_str_def)

lemma baseMessage_response:
  "\<not> truthy_ostr (apiError.message err) \<Longrightarrow> response err = Some r \<Longrightarrow> status r = Some st \<Longrightarrow>
   truthy_num st \<Longrightarrow>
   baseMessage toString err =
     str ''API Error: '' @ toString st @ str '' '' @ templateString (statusText r) @
     (if truthy_ostr (Option.bind (errorResponse.data r) errorData.message)
      then str '' - '' @ the (Option.bind (errorResponse.data r) errorData.message) else [])"
  by (auto simp add: baseMessage_def truthy_ostr_def Let_def split: option.splits)

lemma baseMessage_generic:
  "\<not> truthy_ostr (apiError.message err) \<Longrightarrow>
   Option.bind (response err) status = None \<or>
       (\<exists>st. Option.bind (response err) status = Some st \<and> \<not> truthy_num st) \<Longrightarrow>
   baseMessage toString err = str ''An unexpected error occurred.''"
  by (auto simp add: baseMessage_def truthy_ostr_def Let_def split: option.splits)

lemma handleApiError_with_keyHint:
  "(includes_str (baseMessage toString err) (str ''Requested entity was not found.'') \<longrightarrow>
      snd (handleApiError toString win err) = baseMessage toString err @ keyHint
      \<and> includes_str (snd (handleApiError toString win err)) (baseMessage toString err)
      \<and> includes_str (snd (handleApiError toString win err)) (str ''Requested entity was not found.'')
      \<and> includes_str (snd (handleApiError toString win err)) keyHint
      \<and> count_list (fst (handleApiError toString win err)) CallOpenSelectKey =
          (if Option.bind (Option.bind win aistudio) openSelectKey \<noteq> None then 1 else 0))
   \<and> (\<not> includes_str (baseMessage toString err) (str ''Requested entity was not found.'') \<longrightarrow>
      snd (handleApiError toString win err) = baseMessage toString err
      \<and> count_list (fst (handleApiError toString win err)) CallOpenSelectKey = 0)
   \<and> (\<forall>m. apiError.message err = Some m \<and> m \<noteq> [] \<longrightarrow> baseMessage toString err = m)
   \<and> (\<forall>r st. \<not> truthy_ostr (apiError.message err) \<and> response err = Some r \<and>
              status r = Some st \<and> truthy_num st \<longrightarrow>
        baseMessage toString err =
          str ''API Error: '' @ toString st @ str '' '' @ templateString (statusText r) @
          (if truthy_ostr (Option.bind (errorResponse.data r) errorData.message)
           then str '' - '' @ the (Option.bind (errorResponse.data r) errorData.message)
           else []))
   \<and> (\<not> truthy_ostr (apiError.message err) \<and>
      (Option.bind (response err) status = None \<or>
       (\<exists>st. Option.bind (response err) status = Some st \<and> \<not> truthy_num st)) \<longrightarrow>
        baseMessage toString err = str ''An unexpected error occurred.'')"
proof (intro conjI impI allI)
  assume inc: "includes_str (baseMessage toString err) (str ''Requested entity was not found.'')"
  then show eq: "snd (handleApiError toString win err) = baseMessage toString err @ keyHint"
    by (simp add: message_handleApiError)
  show "includes_str (snd (handleApiError toString win err)) (baseMessage toString err)"
    unfolding eq by (rule includes_str_prefix)
  show "includes_str (snd (handleApiError toString win err)) (str ''Requested entity was not found.'')"
    unfolding eq using inc by (rule includes_str_append)
  show "includes_str (snd (handleApiError toString win err)) keyHint"
    unfolding eq by (rule includes_str_suffix)
  show "count_list (fst (handleApiError toString win err)) CallOpenSelectKey =
          (if Option.bind (Option.bind win aistudio) openSelectKey \<noteq> None then 1 else 0)"
    using inc by (simp add: count_effects)
next
  assume "\<not> includes_str (baseMessage toString err) (str ''Requested entity was not found.'')"
  then show "snd (handleApiError toString win err) = baseMessage toString err"
    and "count_list (fst (handleApiError toString win err)) CallOpenSelectKey = 0"
    by (simp_all add: message_handleApiError count_effects)
next
  fix m assume "apiError.message err = Some m \<and> m \<noteq> []"
  then show "baseMessage toString err = m" by (simp add: baseMessage_message)
next
  fix r st
  assume "\<not> truthy_ostr (apiError.message err) \<and> response err = Some r \<and>
              status r = Some st \<and> truthy_num st"
  then show "baseMessage toString err =
          str ''API Error: '' @ toString st @ str '' '' @ templateString (statusText r) @
          (if truthy_ostr (Option.bind (errorResponse.data r) errorData.message)
           then str '' - '' @ the (Option.bind (errorResponse.data r) errorData.message)
           else [])"
    using baseMessage_response [of err r st toString] by blast
next
  assume "\<not> truthy_ostr (apiError.message err) \<and>
      (Option.bind (response err) status = None \<or>
       (\<exists>st. Option.bind (response err) status = Some st \<and> \<not> truthy_num st))"
  then show "baseMessage toString err = str ''An unexpected error occurred.''"
    using baseMessage_generic [of err toString] by blast
qed

text \<open>
  Claim C7, as amended. Let the base message be the error's \<open>message\<close> when that is a
  non-empty string, else \<open>API Error: <status> <statusText>\<close> (with \<open> - <detail>\<close> appended
  when the response data has a non-empty message) when the error has a response with a
  truthy status, else the generic text; the status is printed by the host and the status
  text as a template literal prints it. If the base message contains
  \<open>Requested entity was not found.\<close>, the result is the base message followed by the hint,
  and \<open>openSelectKey\<close> is called once when the host exposes it and not at all otherwise. If it
  does not, the result is the base message and \<open>openSelectKey\<close> is not called.
\<close>

theorem handleApiError_entity_not_found:
  "(includes_str (baseMessage toString err) (str ''Requested entity was not found.'') \<longrightarrow>
      snd (handleApiError toString win err) = baseMessage toString err @
        (str ('' This might indicate an issue with your selected API key. '' @
                  ''Please try selecting it again.''))
      \<and> includes_str (snd (handleApiError toString win err)) (baseMessage toString err)
      \<and> includes_str (snd (handleApiError toString win err)) (str ''Requested entity was not found.'')
      \<and> includes_str (snd (handleApiError toString win err))
        (str ('' This might indicate an issue with your selected API key. '' @
                  ''Please try selecting it again.''))
      \<and> count_list (fst (handleApiError toString win err)) CallOpenSelectKey =
          (if Option.bind (Option.bind win aistudio) openSelectKey \<noteq> None then 1 else 0))
   \<and> (\<not> includes_str (baseMessage toString err) (str ''Requested entity was not found.'') \<longrightarrow>
      snd (handleApiError toString win err) = baseMessage toString err
      \<and> count_list (fst (handleApiError toString win err)) CallOpenSelectKey = 0)
   \<and> (\<forall>m. apiError.message err = Some m \<and> m \<noteq> [] \<longrightarrow> baseMessage toString err = m)
   \<and> (\<forall>r st. \<not> truthy_ostr (apiError.message err) \<and> response err = Some r \<and>
              status r = Some st \<and> truthy_num st \<longrightarrow>
        baseMessage toString err =
          str ''API Error: '' @ toString st @ str '' '' @ templateString (statusText r) @
          (if truthy_ostr (Option.bind (errorResponse.data r) errorData.message)
           then str '' - '' @ the (Option.bind (errorResponse.data r) errorData.message)
           else []))
   \<and> (\<not> truthy_ostr (apiError.message err) \<and>
      (Option.bind (response err) status = None \<or>
       (\<exists>st. Option.bind (response err) status = Some st \<and> \<not> truthy_num st)) \<longrightarrow>
        baseMessage toString err = str ''An unexpected error occurred.'')"
  using handleApiError_with_keyHint [of toString err win] unfolding keyHint_def .

text \<open>
  In the witness the host prints the status \<open>404\<close> as the digits \<open>404\<close>. The first error is
  the one of the specification; the second has a response with a detail message, the third
  a response whose status text is \<^verbatim>\<open>null\<close>.
\<close>

theorem handleApiError_entity_not_found_witness:
  "handleApiError (\<lambda>x. if x = Num 404 then str ''404'' else [])
      (Some \<lparr>aistudio = Some \<lparr>hasSelectedApiKey = Some (Inr True), openSelectKey = Some (Inr ())\<rparr>\<rparr>)
      \<lparr>apiError.message = Some (str ''Requested entity was not found.''), response = None\<rparr> =
     ([ConsoleError (str ''Gemini API error:''), CallOpenSelectKey],
      str (''Requested entity was not found. This might indicate an issue with your '' @
           ''selected API key. Please try selecting it again.''))
   \<and> snd (handleApiError (\<lambda>x. if x = Num 404 then str ''404'' else []) None
      \<lparr>apiError.message = None,
       response = Some \<lparr>status = Some (Num 404), statusText = StringValue (str ''Not Found''),
                        data = Some \<lparr>errorData.message = Some (str ''no such model'')\<rparr>\<rparr>\<rparr>) =
     str ''API Error: 404 Not Found - no such model''
   \<and> snd (handleApiError (\<lambda>x. if x = Num 404 then str ''404'' else []) None
      \<lparr>apiError.message = None,
       response = Some \<lparr>status = Some (Num 404), statusText = Null, data = None\<rparr>\<rparr>) =
     str ''API Error: 404 null''"
proof -
  let ?P = "\<lambda>x. if x = Num 404 then str ''404'' else []"
  let ?W = "Some \<lparr>aistudio = Some \<lparr>hasSelectedApiKey = Some (Inr True),
                                   openSelectKey = Some (Inr ())\<rparr>\<rparr>"
  let ?E = "\<lparr>apiError.message = Some (str ''Requested entity was not found.''),
             response = None\<rparr>"
  let ?R = "\<lparr>status = Some (Num 404), statusText = StringValue (str ''Not Found''),
             data = Some \<lparr>errorData.message = Some (str ''no such model'')\<rparr>\<rparr>"
  let ?F = "\<lparr>apiError.message = None, response = Some ?R\<rparr>"
  let ?N = "\<lparr>status = Some (Num 404), statusText = Null, data = None\<rparr>"
  let ?G = "\<lparr>apiError.message = None, response = Some ?N\<rparr>"
  have b: "baseMessage ?P ?E = str ''Requested entity was not found.''"
    by (simp add: baseMessage_def truthy_str_def str_def)
  have inc: "includes_str (baseMessage ?P ?E) (str ''Requested entity was not found.'')"
    unfolding b using includes_str_prefix [of "str ''Requested entity was not found.''" "[]"]
    by simp
  from handleApiError_entity_not_found [of ?P ?E ?W] inc
  have m: "snd (handleApiError ?P ?W ?E) = baseMessage ?P ?E @
        (str ('' This might indicate an issue with your selected API key. '' @
                  ''Please try selecting it again.''))"
    and c: "count_list (fst (handleApiError ?P ?W ?E)) CallOpenSelectKey =
          (if Option.bind (Option.bind ?W aistudio) openSelectKey \<noteq> None then 1 else 0)"
    by blast+
  from m have "snd (handleApiError ?P ?W ?E) = str ''Requested entity was not found.'' @
        (str ('' This might indicate an issue with your selected API key. '' @
                  ''Please try selecting it again.''))"
    by (simp only: b)
  then have one: "snd (handleApiError ?P ?W ?E) =
      str (''Requested entity was not found. This might indicate an issue with your '' @
           ''selected API key. Please try selecting it again.'')"
    by (simp add: str_def)
  from c have cnt: "count_list (fst (handleApiError ?P ?W ?E)) CallOpenSelectKey = 1"
    by simp
  have "fst (handleApiError ?P ?W ?E) = [ConsoleError (str ''Gemini API error:''), CallOpenSelectKey]"
    using inc by (simp add: handleApiError_def Let_def)
  with one have first: "handleApiError ?P ?W ?E =
     ([ConsoleError (str ''Gemini API error:''), CallOpenSelectKey],
      str (''Requested entity was not found. This might indicate an issue with your '' @
           ''selected API key. Please try selecting it again.''))"
    by (simp add: prod_eq_iff)
  have pre: "\<not> truthy_ostr (apiError.message ?F) \<and> response ?F = Some ?R \<and>
             status ?R = Some (Num 404) \<and> truthy_num (Num 404)"
    by (simp add: truthy_ostr_def truthy_num_def)
  from handleApiError_entity_not_found [of ?P ?F None] pre
  have "baseMessage ?P ?F =
          str ''API Error: '' @ ?P (Num 404) @ str '' '' @ templateString (statusText ?R) @
          (if truthy_ostr (Option.bind (errorResponse.data ?R) errorData.message)
           then str '' - '' @ the (Option.bind (errorResponse.data ?R) errorData.message)
           else [])"
    by blast
  then have bf: "baseMessage ?P ?F = str ''API Error: 404 Not Found - no such model''"
    by (simp add: templateString_def truthy_ostr_def truthy_str_def str_def)
  have "\<not> includes_str (str ''API Error: 404 Not Found - no such model'')
            (str ''Requested entity was not found.'')"
    by (simp add: str_def)
  then have second: "snd (handleApiError ?P None ?F) = str ''API Error: 404 Not Found - no such model''"
    by (simp only: message_handleApiError bf if_False)
  have bg: "baseMessage ?P ?G = str ''API Error: 404 null''"
    by (simp add: baseMessage_def truthy_num_def templateString_def str_def)
  have "\<not> includes_str (str ''API Error: 404 null'') (str ''Requested entity was not found.'')"
    by (simp add: str_def)
  then have third: "snd (handleApiError ?P None ?G) = str ''API Error: 404 null''"
    by (simp only: message_handleApiError bg if_False)
  from first second third cnt show ?thesis by blast
qed

text \<open>
  Claim C7 as stated asks for exactly one call of the dialog for every such error. Where
  there is no \<open>window\<close> the guard of source line 117 skips the call.
\<close>

theorem handleApiError_no_dialog_counterexample:
  "includes_str
     (baseMessage (\<lambda>x. [])
        \<lparr>apiError.message = Some (str ''Requested entity was not found.''), response = None\<rparr>)
     (str ''Requested entity was not found.'')
   \<and> count_list
        (fst (handleApiError (\<lambda>x. []) None
               \<lparr>apiError.message = Some (str ''Requested entity was not found.''),
                response = None\<rparr>))
        CallOpenSelectKey \<noteq> 1"
  by (simp add: handleApiError_def baseMessage_def truthy_str_def str_def)

section \<open>Properties of the grounding extraction\<close>

text \<open>The loop appends to what it has: its result is the concatenation of its turns.\<close>

lemma pushChunk_append: "pushChunk pushed chunk = pushed @ pushChunk [] chunk"
  by (simp add: pushChunk_def split: option.splits)

lemma foldl_pushChunk: "foldl pushChunk pushed chunks = pushed @ concat (map (pushChunk []) chunks)"
proof (induction chunks arbitrary: pushed)
  case Nil
  show ?case by simp
next
  case (Cons c cs)
  have "foldl pushChunk pushed (c # cs) = foldl pushChunk (pushChunk pushed c) cs" by simp
  also have "\<dots> = pushChunk pushed c @ concat (map (pushChunk []) cs)" by (rule Cons.IH)
  also have "\<dots> = (pushed @ pushChunk [] c) @ concat (map (pushChunk []) cs)"
    by (simp only: pushChunk_append [of pushed c])
  finally show ?case by simp
qed

lemma pushChunk_rejected: "\<not> webOk c \<Longrightarrow> \<not> mapsOk c \<Longrightarrow> pushChunk [] c = []"
  by (simp add: pushChunk_def)

lemma pushChunk_web: "web c = Some w \<Longrightarrow> webOk c \<Longrightarrow> pushChunk [] c = [Web w]"
  by (simp add: pushChunk_def)

lemma pushChunk_maps:
  "\<not> webOk c \<Longrightarrow> maps c = Some m \<Longrightarrow> sdkMaps.uri m = Some u \<Longrightarrow> sdkMaps.title m = Some t \<Longrightarrow>
   u \<noteq> [] \<Longrightarrow> t \<noteq> [] \<Longrightarrow>
   pushChunk [] c =
     [Maps \<lparr>mapsData.uri = u, mapsData.title = t,
            mapsData.placeAnswerSources =
              map_option (\<lambda>snippets. \<lparr>placeAnswerSourcesData.reviewSnippets = map copySnippet snippets\<rparr>)
                (Option.bind (sdkMaps.placeAnswerSources m) sdkPlaceAnswerSources.reviewSnippets)\<rparr>]"
  by (simp add: pushChunk_def mapsOk_def truthy_ostr_def truthy_str_def buildMapsData_def
      Let_def split: option.splits)

lemma pushChunk_length: "length (pushChunk [] c) = (if webOk c \<or> mapsOk c then 1 else 0)"
  by (auto simp add: pushChunk_def webOk_def mapsOk_def truthy_ostr_def split: option.splits)

lemma concat_filter_accepted:
  "concat (map (pushChunk []) (filter (\<lambda>c. webOk c \<or> mapsOk c) chunks)) =
   concat (map (pushChunk []) chunks)"
  by (induction chunks) (auto simp add: pushChunk_rejected)

lemma length_concat_pushChunk:
  "length (concat (map (pushChunk []) chunks)) = length (filter (\<lambda>c. webOk c \<or> mapsOk c) chunks)"
  by (induction chunks) (simp_all add: pushChunk_length)

lemma no_title_rejected:
  assumes "\<forall>w. web c = Some w \<longrightarrow> \<not> truthy_ostr (sdkWeb.title w)"
    and "\<forall>m. maps c = Some m \<longrightarrow> \<not> truthy_ostr (sdkMaps.title m)"
  shows "\<not> webOk c" and "\<not> mapsOk c"
  using assms by (auto simp add: webOk_def mapsOk_def split: option.splits)




end
